theory Spec2Isabelle
  imports Complex_Main "HOL-Library.Monad_Syntax"
begin

section \<open>Buffers\<close>

text \<open>
  \<^verbatim>\<open>Buffer<float>\<close> as \<^verbatim>\<open>blur.cpp\<close> uses it: four dimensions, each built from
  an extent alone (\<^verbatim>\<open>Buffer<float> input(batch_size, channels_in, height, width)\<close>), so
  every dimension starts at coordinate 0. \<^verbatim>\<open>dim(k).extent()\<close> is the field
  \<open>extentk\<close>. A buffer that was only allocated (the output buffer) is its extents; a
  filled one also has its elements.
\<close>

record dims =
  extent0 :: int
  extent1 :: int
  extent2 :: int
  extent3 :: int

record 'a buffer = dims +
  elems :: "int \<Rightarrow> int \<Rightarrow> int \<Rightarrow> int \<Rightarrow> 'a"

definition in_bounds :: "'z dims_scheme \<Rightarrow> int \<Rightarrow> int \<Rightarrow> int \<Rightarrow> int \<Rightarrow> bool" where
  "in_bounds d n c x y \<longleftrightarrow>
     0 \<le> n \<and> n < extent0 d \<and> 0 \<le> c \<and> c < extent1 d \<and>
     0 \<le> x \<and> x < extent2 d \<and> 0 \<le> y \<and> y < extent3 d"

text \<open>
  A read of the input at a coordinate. The engine checks the region a pipeline reads
  against the input buffer before it runs and fails when the buffer does not cover it:
  a read outside the buffer is \<open>None\<close>.
\<close>

definition buffer_at :: "'a buffer \<Rightarrow> int \<Rightarrow> int \<Rightarrow> int \<Rightarrow> int \<Rightarrow> 'a option" where
  "buffer_at b n c x y = (if in_bounds b n c x y then Some (elems b n c x y) else None)"

section \<open>The element arithmetic\<close>

text \<open>
  The stages add buffer elements and divide by the integer literal 3, which the engine
  converts to the element type. The stage definitions below take these three operations
  as a parameter, so that the same definitions can be read in exact arithmetic and in
  the rounded arithmetic of \<^verbatim>\<open>float\<close>.
\<close>

record 'a arith =
  fadd :: "'a \<Rightarrow> 'a \<Rightarrow> 'a"
  fdiv :: "'a \<Rightarrow> 'a \<Rightarrow> 'a"
  fconst :: "int \<Rightarrow> 'a"

definition exact :: "real arith" where
  "exact = \<lparr>fadd = (+), fdiv = (/), fconst = real_of_int\<rparr>"

section \<open>The arithmetic of float and double\<close>

text \<open>
  \<^verbatim>\<open>float\<close> is IEEE 754 binary32 and \<^verbatim>\<open>double\<close> is binary64, with rounding to nearest,
  ties to even: significands of 24 and 53 bits, normal exponents from \<open>-126\<close> to
  \<open>127\<close> and from \<open>-1022\<close> to \<open>1023\<close>, subnormal numbers below them, and overflow
  to an infinity. A finite value is the real number it denotes; the two zeros are not
  told apart.
\<close>

datatype ieee = Finite real | PlusInfinity | MinusInfinity | NaN

text \<open>
  A format: the number of bits of the significand and the least and the largest
  exponent of a normal number.
\<close>

record format =
  precision :: int
  emin :: int
  emax :: int

definition binary32 :: format where
  "binary32 = \<lparr>precision = 24, emin = - 126, emax = 127\<rparr>"

definition binary64 :: format where
  "binary64 = \<lparr>precision = 53, emin = - 1022, emax = 1023\<rparr>"

text \<open>
  \<open>binade hi e x\<close> is the exponent of \<open>x\<close>, searched upwards from \<open>e\<close>: the largest
  exponent up to \<open>hi\<close> whose power of two is at most \<open>x\<close>, and \<open>e\<close> itself when \<open>x\<close>
  is smaller than that.
\<close>

function binade :: "int \<Rightarrow> int \<Rightarrow> real \<Rightarrow> int" where
  "binade hi e x = (if e < hi \<and> 2 powi (e + 1) \<le> x then binade hi (e + 1) x else e)"
  by pat_completeness auto
termination
  by (relation "measure (\<lambda>(hi, e, x). nat (hi - e))") auto

definition round_half_even :: "real \<Rightarrow> int" where
  "round_half_even q =
     (let f = \<lfloor>q\<rfloor>; d = q - real_of_int f in
      if d < 1 / 2 then f else if 1 / 2 < d then f + 1 else if even f then f else f + 1)"

text \<open>
  Rounding a real number: to the nearest multiple of the spacing of its binade, ties to
  the even multiple, and to an infinity when that multiple is beyond the largest finite
  number.
\<close>

definition round_to :: "format \<Rightarrow> real \<Rightarrow> ieee" where
  "round_to f x =
     (let quantum = 2 powi (binade (emax f) (emin f) \<bar>x\<bar> - (precision f - 1));
          r = real_of_int (round_half_even (x / quantum)) * quantum in
      if 2 powi (emax f + 1) \<le> r then PlusInfinity
      else if r \<le> - (2 powi (emax f + 1)) then MinusInfinity
      else Finite r)"

abbreviation round_float32 :: "real \<Rightarrow> ieee" where
  "round_float32 \<equiv> round_to binary32"

abbreviation round_double :: "real \<Rightarrow> ieee" where
  "round_double \<equiv> round_to binary64"

text \<open>
  Addition, subtraction, division and \<^verbatim>\<open><\<close> on the values of a format.
\<close>

fun ieee_add :: "format \<Rightarrow> ieee \<Rightarrow> ieee \<Rightarrow> ieee" where
  "ieee_add f (Finite a) (Finite b) = round_to f (a + b)"
| "ieee_add f NaN y = NaN"
| "ieee_add f x NaN = NaN"
| "ieee_add f PlusInfinity MinusInfinity = NaN"
| "ieee_add f MinusInfinity PlusInfinity = NaN"
| "ieee_add f PlusInfinity y = PlusInfinity"
| "ieee_add f MinusInfinity y = MinusInfinity"
| "ieee_add f x PlusInfinity = PlusInfinity"
| "ieee_add f x MinusInfinity = MinusInfinity"

fun ieee_sub :: "format \<Rightarrow> ieee \<Rightarrow> ieee \<Rightarrow> ieee" where
  "ieee_sub f (Finite a) (Finite b) = round_to f (a - b)"
| "ieee_sub f NaN y = NaN"
| "ieee_sub f x NaN = NaN"
| "ieee_sub f PlusInfinity PlusInfinity = NaN"
| "ieee_sub f MinusInfinity MinusInfinity = NaN"
| "ieee_sub f PlusInfinity y = PlusInfinity"
| "ieee_sub f MinusInfinity y = MinusInfinity"
| "ieee_sub f x PlusInfinity = MinusInfinity"
| "ieee_sub f x MinusInfinity = PlusInfinity"

fun ieee_div :: "format \<Rightarrow> ieee \<Rightarrow> ieee \<Rightarrow> ieee" where
  "ieee_div f (Finite a) (Finite b) =
     (if b = 0 then (if a = 0 then NaN else if 0 < a then PlusInfinity else MinusInfinity)
      else round_to f (a / b))"
| "ieee_div f NaN y = NaN"
| "ieee_div f x NaN = NaN"
| "ieee_div f (Finite a) y = Finite 0"
| "ieee_div f PlusInfinity (Finite b) = (if 0 \<le> b then PlusInfinity else MinusInfinity)"
| "ieee_div f MinusInfinity (Finite b) = (if 0 \<le> b then MinusInfinity else PlusInfinity)"
| "ieee_div f x y = NaN"

fun ieee_less :: "ieee \<Rightarrow> ieee \<Rightarrow> bool" where
  "ieee_less (Finite a) (Finite b) = (a < b)"
| "ieee_less NaN y = False"
| "ieee_less x NaN = False"
| "ieee_less x MinusInfinity = False"
| "ieee_less MinusInfinity y = True"
| "ieee_less PlusInfinity y = False"
| "ieee_less x PlusInfinity = True"

text \<open>
  The arithmetic of \<^verbatim>\<open>float\<close> as the stages use it; the literal 3 is converted by
  rounding.
\<close>

definition rounded :: "ieee arith" where
  "rounded = \<lparr>fadd = ieee_add binary32, fdiv = ieee_div binary32,
              fconst = (\<lambda>i. round_float32 (real_of_int i))\<rparr>"

section \<open>The class Blur: stage definitions and the output buffer\<close>

record 'a Blur =
  input :: "'a buffer"
  scheduler :: string

text \<open>
  \<^verbatim>\<open>producer(n, c, x, y) = (input(n, c, x, y) + input(n, c, x+1, y) + input(n, c, x+2, y)) / 3;\<close>
\<close>

definition producer :: "'a arith \<Rightarrow> 'a Blur \<Rightarrow> int \<Rightarrow> int \<Rightarrow> int \<Rightarrow> int \<Rightarrow> 'a option" where
  "producer A blur n c x y = do {
     a0 \<leftarrow> buffer_at (input blur) n c x y;
     a1 \<leftarrow> buffer_at (input blur) n c (x + 1) y;
     a2 \<leftarrow> buffer_at (input blur) n c (x + 2) y;
     Some (fdiv A (fadd A (fadd A a0 a1) a2) (fconst A 3))
   }"

text \<open>
  \<^verbatim>\<open>consumer(n, c, x, y) = (producer(n, c, x, y) + producer(n, c, x, y+1) + producer(n, c, x, y+2)) / 3;\<close>
\<close>

definition consumer :: "'a arith \<Rightarrow> 'a Blur \<Rightarrow> int \<Rightarrow> int \<Rightarrow> int \<Rightarrow> int \<Rightarrow> 'a option" where
  "consumer A blur n c x y = do {
     p0 \<leftarrow> producer A blur n c x y;
     p1 \<leftarrow> producer A blur n c x (y + 1);
     p2 \<leftarrow> producer A blur n c x (y + 2);
     Some (fdiv A (fadd A (fadd A p0 p1) p2) (fconst A 3))
   }"

text \<open>
  \<^verbatim>\<open>Buffer<float> output(input.dim(0).extent(), input.dim(1).extent(),
                        input.dim(2).extent()-2, input.dim(3).extent()-2);\<close>
\<close>

definition get_output_buffer :: "'a Blur \<Rightarrow> dims" where
  "get_output_buffer blur =
     \<lparr>extent0 = extent0 (input blur), extent1 = extent1 (input blur),
      extent2 = extent2 (input blur) - 2, extent3 = extent3 (input blur) - 2\<rparr>"

section \<open>The engine's target descriptor\<close>

text \<open>
  \<^verbatim>\<open>Target\<close> belongs to the external engine. The program reads its \<^verbatim>\<open>os\<close>
  field and calls \<^verbatim>\<open>with_feature\<close>, \<^verbatim>\<open>has_feature\<close> and \<^verbatim>\<open>has_gpu_feature\<close>; a
  target is modelled as the operating system and the set of enabled feature flags.
  \<open>HostFeature\<close> stands for the flags that describe the processor; the other five
  are the GPU interfaces, and \<^verbatim>\<open>has_gpu_feature\<close> holds when one of them is enabled.
\<close>

datatype os = OSUnknown | Linux | Windows | OSX | Android | IOS | QuRT | NoOS | Fuchsia
  | WebAssemblyRuntime

datatype feature = CUDA | OpenCL | Metal | D3D12Compute | OpenGLCompute | HostFeature nat

record target =
  os :: os
  features :: "feature set"

definition with_feature :: "target \<Rightarrow> feature \<Rightarrow> target" where
  "with_feature t f = t\<lparr>features := insert f (features t)\<rparr>"

definition has_feature :: "target \<Rightarrow> feature \<Rightarrow> bool" where
  "has_feature t f \<longleftrightarrow> f \<in> features t"

definition has_gpu_feature :: "target \<Rightarrow> bool" where
  "has_gpu_feature t \<longleftrightarrow>
     has_feature t CUDA \<or> has_feature t OpenCL \<or> has_feature t Metal \<or>
     has_feature t D3D12Compute \<or> has_feature t OpenGLCompute"

section \<open>The environment and the calls the program makes\<close>

text \<open>
  What the program asks of its surroundings: the host's target
  (\<^verbatim>\<open>get_host_target()\<close>), whether the host can run a target
  (\<^verbatim>\<open>host_supports_target_device\<close>), the clock (\<open>current_time env k\<close> is the double
  that the \<open>k\<close>-th call of \<^verbatim>\<open>current_time()\<close> returns, in milliseconds)
  and the random numbers (\<open>rand env k\<close> is the value of the \<open>k\<close>-th call of
  \<^verbatim>\<open>rand()\<close>).
\<close>

record env =
  get_host_target :: target
  host_supports_target_device :: "target \<Rightarrow> bool"
  current_time :: "nat \<Rightarrow> ieee"
  rand :: "nat \<Rightarrow> int"

text \<open>
  Every call into the engine or the C library that has an effect is an event; a run of
  the program is the list of its events in order. The calls are taken to return: a
  failure inside the engine ends the process there and is no path of this program's
  text.
\<close>

datatype printf_arg = AStr string | AInt int | ADouble ieee | ATarget target

datatype func = Producer | Consumer

datatype pipeline = ConsumerFunc | AutoBlur

datatype var = Var_n | Var_c | Var_x | Var_y | Var_nc | Var_nco | Var_xo | Var_nci | Var_xi

datatype memory_type = Auto

datatype directive =
    Fuse var var var
  | Tile var var var var var var int int
  | GpuBlocks var var
  | GpuThreads var var
  | ComputeAt func var
  | StoreIn memory_type

datatype event =
    Printf string "printf_arg list"
  | FprintfStderr string
  | LoadPlugin string
  | NewBuffer dims
  | Schedule func directive
  | SetEstimates func "(int \<times> int) list"
  | AutoSchedule string target
  | CompileJit pipeline target
  | Realize pipeline dims
  | DeviceSync

section \<open>find_gpu_target\<close>

text \<open>
  The loop \<^verbatim>\<open>for (Target::Feature f : features_to_try)\<close>: the first candidate whose
  target the host supports is returned from inside the loop.
\<close>

fun try_features :: "env \<Rightarrow> target \<Rightarrow> feature list \<Rightarrow> target option" where
  "try_features env target [] = None"
| "try_features env target (f # fs) =
     (let new_target = with_feature target f in
      if host_supports_target_device env new_target then Some new_target
      else try_features env target fs)"

definition find_gpu_target :: "env \<Rightarrow> event list \<times> target" where
  "find_gpu_target env =
     (let target = get_host_target env;
          features_to_try = (if os target = OSX then [Metal] else [CUDA]) in
      case try_features env target features_to_try of
        Some new_target \<Rightarrow> ([], new_target)
      | None \<Rightarrow>
          ([Printf ''Requested GPU(s) are not supported. (Do you have the proper hardware and/or driver installed?)\<newline>'' []],
           target))"

section \<open>Blur::schedule_for_gpu\<close>

definition manual_cuda_schedule :: "event list" where
  "manual_cuda_schedule =
     [Schedule Consumer (Fuse Var_n Var_c Var_nc),
      Schedule Consumer (Tile Var_nc Var_x Var_nco Var_xo Var_nci Var_xi 32 32),
      Schedule Consumer (GpuBlocks Var_nco Var_y),
      Schedule Consumer (GpuThreads Var_nci Var_xi),
      Schedule Producer (ComputeAt Consumer Var_nci),
      Schedule Producer (StoreIn Auto)]"

definition schedule_for_gpu :: "env \<Rightarrow> 'a Blur \<Rightarrow> event list \<times> bool" where
  "schedule_for_gpu env blur =
     (let (found, target) = find_gpu_target env in
      if \<not> has_gpu_feature target then (found, False)
      else if scheduler blur = [] then
        (found @
         (if has_feature target CUDA then manual_cuda_schedule else []) @
         [Printf ''Target: %s\<newline>'' [ATarget target],
          CompileJit ConsumerFunc target],
         True)
      else
        (found @
         [SetEstimates Consumer
            [(0, extent0 (input blur)), (0, extent1 (input blur)),
             (0, extent2 (input blur)), (0, extent3 (input blur))],
          AutoSchedule (scheduler blur) target,
          CompileJit AutoBlur target],
         True))"

section \<open>Blur::test_performance\<close>

text \<open>
  The pipeline that \<^verbatim>\<open>realize\<close> is called on: \<^verbatim>\<open>consumer\<close> when the scheduler
  string is empty, \<^verbatim>\<open>auto_blur\<close> otherwise.
\<close>

definition realized :: "'a Blur \<Rightarrow> pipeline" where
  "realized blur = (if scheduler blur = [] then ConsumerFunc else AutoBlur)"

text \<open>
  The state of the timing loop: the two accumulators, the number of calls of
  \<^verbatim>\<open>current_time()\<close> made so far, and the events so far.
\<close>

record timing =
  total_time :: ieee
  best_time :: ieee
  clock_calls :: nat
  trace :: "event list"

text \<open>
  The body of the timing loop at iteration \<open>i\<close>: two readings of the clock around
  \<^verbatim>\<open>realize\<close> and \<^verbatim>\<open>device_sync\<close>, then the update of \<^verbatim>\<open>best_time\<close> and
  \<^verbatim>\<open>total_time\<close>.
\<close>

definition timing_body :: "env \<Rightarrow> pipeline \<Rightarrow> dims \<Rightarrow> int \<Rightarrow> timing \<Rightarrow> timing" where
  "timing_body env p output i s =
     (let t1 = current_time env (clock_calls s);
          t2 = current_time env (clock_calls s + 1);
          elapsed = ieee_sub binary64 t2 t1
      in \<lparr>total_time = ieee_add binary64 (total_time s) elapsed,
          best_time = (if i = 0 \<or> ieee_less elapsed (best_time s) then elapsed
                       else best_time s),
          clock_calls = clock_calls s + 2,
          trace = trace s @ [Realize p output, DeviceSync]\<rparr>)"

text \<open>
  \<^verbatim>\<open>for (int i = 0; i < num_runs; i++)\<close>
\<close>

function timing_loop :: "env \<Rightarrow> pipeline \<Rightarrow> dims \<Rightarrow> int \<Rightarrow> int \<Rightarrow> timing \<Rightarrow> timing" where
  "timing_loop env p output num_runs i s =
     (if i < num_runs
      then timing_loop env p output num_runs (i + 1) (timing_body env p output i s)
      else s)"
  by pat_completeness auto
termination
  by (relation "measure (\<lambda>(env, p, output, num_runs, i, s). nat (num_runs - i))") auto

text \<open>
  \<^verbatim>\<open>total_time / num_runs\<close> divides a double by an int, which is converted to double
  first.
\<close>

definition average :: "ieee \<Rightarrow> int \<Rightarrow> ieee" where
  "average total_ms num_runs =
     ieee_div binary64 total_ms (round_double (real_of_int num_runs))"

definition test_performance :: "env \<Rightarrow> 'a Blur \<Rightarrow> int \<Rightarrow> event list" where
  "test_performance env blur num_runs =
     (let output = get_output_buffer blur;
          s = timing_loop env (realized blur) output num_runs 0
                \<lparr>total_time = Finite 0, best_time = Finite 0, clock_calls = 0,
                 trace = [NewBuffer output, Realize (realized blur) output]\<rparr>
      in trace s @
         [Printf ''%d runs in total\<newline>'' [AInt num_runs],
          Printf ''Average: %1.4f milliseconds\<newline>''
            [ADouble (average (total_time s) num_runs)],
          Printf ''Best: %1.4f milliseconds\<newline>'' [ADouble (best_time s)]])"

section \<open>main\<close>

text \<open>
  \<^verbatim>\<open>const int batch_size = 32, width = 258, height = 258, channels_in = 8;\<close>
  The input buffer is \<^verbatim>\<open>input(batch_size, channels_in, height, width)\<close>; the four
  nested loops store the values of \<^verbatim>\<open>rand()\<close>, converted to the element type, in the
  order \<open>b\<close>, \<open>c\<close>, \<open>h\<close>, \<open>w\<close>.
\<close>

definition batch_size :: int where "batch_size = 32"
definition width :: int where "width = 258"
definition height :: int where "height = 258"
definition channels_in :: int where "channels_in = 8"

definition random_input :: "'a arith \<Rightarrow> env \<Rightarrow> 'a buffer" where
  "random_input A env =
     \<lparr>extent0 = batch_size, extent1 = channels_in, extent2 = height, extent3 = width,
      elems = (\<lambda>b c h w.
         fconst A (rand env (nat (((b * channels_in + c) * height + h) * width + w))))\<rparr>"

text \<open>
  Lines 157 to 179 of \<^verbatim>\<open>main\<close>, reached when the argument count is 1 or 2:
  \<open>announced\<close> are the events of the branch taken before, \<open>name\<close> is the scheduler string.
  The value of \<^verbatim>\<open>schedule_for_gpu()\<close> is dropped, as in
  \<^verbatim>\<open>blur_layer.schedule_for_gpu();\<close>.
\<close>

definition run_benchmark :: "'a arith \<Rightarrow> env \<Rightarrow> event list \<Rightarrow> string \<Rightarrow> event list \<times> int" where
  "run_benchmark A env announced name =
     (let input = random_input A env;
          blur_layer = \<lparr>input = input, scheduler = name\<rparr>;
          (scheduled, ok) = schedule_for_gpu env blur_layer
      in (announced @
          [Printf ''Generating input with dimensions: batch_size: %d, height: %d, width: %d, channels: %d\<newline>''
             [AInt batch_size, AInt height, AInt width, AInt channels_in],
           NewBuffer (dims.truncate input),
           Printf ''Running pipeline on GPU:\<newline>'' []] @
          scheduled @
          [Printf ''Testing performance on GPU:\<newline>'' []] @
          test_performance env blur_layer 100,
          0))"

text \<open>
  \<open>argv\<close> is the argument vector, the program's name first; \<^verbatim>\<open>argc\<close> is its length.
\<close>

definition main :: "'a arith \<Rightarrow> env \<Rightarrow> string list \<Rightarrow> event list \<times> int" where
  "main A env argv =
     (let argc = int (length argv) in
      if argc = 2 then
        run_benchmark A env
          [Printf ''Running performance test for Blur with autoscheduler: %s.\<newline>'' [AStr (argv ! 1)],
           LoadPlugin ''autoschedule_li2018'']
          (argv ! 1)
      else if argc = 1 then
        run_benchmark A env
          [Printf ''Running performance test for Blur with manual schedule.\<newline>'' []]
          []
      else ([FprintfStderr ''Usage: .//relu_gpu [autoscheduler]\<newline>''], 1))"

declare timing_loop.simps [simp del]

declare binade.simps [simp del]


section \<open>Reading a run\<close>

text \<open>
  Kinds of events, to speak about the calls of one kind in a run.
\<close>

fun is_plugin_load :: "event \<Rightarrow> bool" where
  "is_plugin_load (LoadPlugin name) = True"
| "is_plugin_load e = False"

fun is_allocation :: "event \<Rightarrow> bool" where
  "is_allocation (NewBuffer d) = True"
| "is_allocation e = False"

fun is_scheduling :: "event \<Rightarrow> bool" where
  "is_scheduling (Schedule f d) = True"
| "is_scheduling (SetEstimates f es) = True"
| "is_scheduling (AutoSchedule name t) = True"
| "is_scheduling e = False"

fun is_compilation :: "event \<Rightarrow> bool" where
  "is_compilation (CompileJit p t) = True"
| "is_compilation e = False"

fun is_realize :: "event \<Rightarrow> bool" where
  "is_realize (Realize p d) = True"
| "is_realize e = False"

text \<open>
  The \<^verbatim>\<open>Blur\<close> object that \<^verbatim>\<open>main\<close> builds from its arguments, and the events of
  the branch on \<^verbatim>\<open>argc\<close> that precede it.
\<close>

definition blur_layer :: "'a arith \<Rightarrow> env \<Rightarrow> string list \<Rightarrow> 'a Blur" where
  "blur_layer A env argv =
     \<lparr>input = random_input A env, scheduler = (if length argv = 2 then argv ! 1 else [])\<rparr>"

definition announcement :: "string list \<Rightarrow> event list" where
  "announcement argv =
     (if length argv = 2
      then [Printf ''Running performance test for Blur with autoscheduler: %s.\<newline>'' [AStr (argv ! 1)],
            LoadPlugin ''autoschedule_li2018'']
      else [Printf ''Running performance test for Blur with manual schedule.\<newline>'' []])"

text \<open>
  Three hosts: one with no supported GPU, a Linux host that supports CUDA and an OS X
  host that supports Metal. Their clock advances by one millisecond per reading.
\<close>

definition linux_no_gpu :: env where
  "linux_no_gpu =
     \<lparr>get_host_target = \<lparr>os = Linux, features = {HostFeature 0}\<rparr>,
      host_supports_target_device = (\<lambda>t. False),
      current_time = (\<lambda>k. Finite (real k)), rand = int\<rparr>"

definition linux_cuda :: env where
  "linux_cuda = linux_no_gpu\<lparr>host_supports_target_device := (\<lambda>t. has_feature t CUDA)\<rparr>"

definition osx_metal :: env where
  "osx_metal =
     \<lparr>get_host_target = \<lparr>os = OSX, features = {HostFeature 0}\<rparr>,
      host_supports_target_device = (\<lambda>t. has_feature t Metal),
      current_time = (\<lambda>k. Finite (real k)), rand = int\<rparr>"

text \<open>
  A host whose clock is set back by two milliseconds after its first reading.
\<close>

definition clock_set_back :: env where
  "clock_set_back =
     linux_cuda\<lparr>current_time := (\<lambda>k. if k = 0 then Finite 5 else Finite 3)\<rparr>"

text \<open>
  A host whose clock advances strictly from reading to reading, by amounts that make
  each of three runs last \<open>2 - 34 * 2 powi (- 52)\<close> milliseconds; every reading is a
  double.
\<close>

definition rounding_ticks :: "nat \<Rightarrow> real" where
  "rounding_ticks k =
     (if k = 0 then 0
      else if k = 1 then 4503599627370479 / 2251799813685248
      else if k = 2 then 4503599627370481 / 2251799813685248
      else if k = 3 then 281474976710655 / 70368744177664
      else if k = 4 then 9007199254740961 / 2251799813685248
      else if k = 5 then 844424930131965 / 140737488355328
      else real k)"

definition clock_rounding :: env where
  "clock_rounding = linux_cuda\<lparr>current_time := (\<lambda>k. Finite (rounding_ticks k))\<rparr>"

text \<open>
  An input of the size \<^verbatim>\<open>main\<close> uses whose element at \<open>(n, c, x, y)\<close> is \<open>x + y\<close>,
  with the manual schedule selected.
\<close>

definition ramp_blur :: "real Blur" where
  "ramp_blur =
     \<lparr>input = \<lparr>extent0 = 32, extent1 = 8, extent2 = 258, extent3 = 258,
               elems = (\<lambda>n c x y. real_of_int (x + y))\<rparr>,
      scheduler = []\<rparr>"

text \<open>
  The same input as floats.
\<close>

definition float_ramp_blur :: "ieee Blur" where
  "float_ramp_blur =
     \<lparr>input = \<lparr>extent0 = 32, extent1 = 8, extent2 = 258, extent3 = 258,
               elems = (\<lambda>n c x y. Finite (real_of_int (x + y)))\<rparr>,
      scheduler = []\<rparr>"

text \<open>
  An input of the same size whose every element is \<open>k\<close>.
\<close>

definition constant_blur :: "'a \<Rightarrow> 'a Blur" where
  "constant_blur k =
     \<lparr>input = \<lparr>extent0 = 32, extent1 = 8, extent2 = 258, extent3 = 258,
               elems = (\<lambda>n c x y. k)\<rparr>,
      scheduler = []\<rparr>"

text \<open>
  The number a finite value stands for, and the finite values of magnitude at most \<open>M\<close>.
\<close>

fun value_of :: "ieee \<Rightarrow> real" where
  "value_of (Finite r) = r"
| "value_of v = 0"

fun bounded :: "real \<Rightarrow> ieee \<Rightarrow> bool" where
  "bounded M (Finite r) = (\<bar>r\<bar> \<le> M)"
| "bounded M v = False"

text \<open>
  The values that are not negative, and those that are at least a given number; both
  count \<open>+\<infinity>\<close> in and NaN out.
\<close>

fun non_negative :: "ieee \<Rightarrow> bool" where
  "non_negative (Finite r) = (0 \<le> r)"
| "non_negative PlusInfinity = True"
| "non_negative v = False"

fun at_least :: "ieee \<Rightarrow> real \<Rightarrow> bool" where
  "at_least (Finite r) x = (x \<le> r)"
| "at_least PlusInfinity x = True"
| "at_least v x = False"

text \<open>
  The relative error of one rounding to nearest is at most \<open>2 powi (- 24)\<close> in
  \<^verbatim>\<open>float\<close> and \<open>2 powi (- 53)\<close> in \<^verbatim>\<open>double\<close>; among the subnormal numbers the
  error is at most half their spacing, \<open>2 powi (- 150)\<close> and \<open>2 powi (- 1075)\<close>.
\<close>

definition float_roundoff :: real where
  "float_roundoff = 2 powi (- 24)"

definition float_tiny :: real where
  "float_tiny = 2 powi (- 150)"

definition double_roundoff :: real where
  "double_roundoff = 2 powi (- 53)"

definition double_tiny :: real where
  "double_tiny = 2 powi (- 1075)"

text \<open>
  What holds of the two accumulators of the timing loop before iteration \<open>i\<close> when the
  clock never runs backwards: \<^verbatim>\<open>total_time\<close> is 0 before the first iteration;
  afterwards \<^verbatim>\<open>best_time\<close> is a non-negative number \<open>b\<close> and \<^verbatim>\<open>total_time\<close> is at
  least \<open>i * b\<close> less the error of \<open>i\<close> rounded additions, or both are \<open>+\<infinity>\<close>.
\<close>

definition timing_inv :: "int \<Rightarrow> timing \<Rightarrow> bool" where
  "timing_inv i s =
     (if i = 0 then total_time s = Finite 0
      else case best_time s of
             Finite b \<Rightarrow>
               0 \<le> b \<and> non_negative (total_time s) \<and>
               at_least (total_time s)
                 (real_of_int i * b * (1 - double_roundoff) ^ nat i -
                  real_of_int i * double_tiny)
           | PlusInfinity \<Rightarrow> total_time s = PlusInfinity
           | _ \<Rightarrow> False)"

section \<open>The stages inside the output shape\<close>

lemma in_bounds_output_taps:
  assumes "in_bounds (get_output_buffer blur) n c x y"
    and "0 \<le> i" "i \<le> 2" "0 \<le> j" "j \<le> 2"
  shows "in_bounds (input blur) n c (x + i) (y + j)"
  using assms by (simp add: in_bounds_def get_output_buffer_def)

lemma producer_in_bounds:
  assumes "in_bounds (get_output_buffer blur) n c x y" and "0 \<le> j" "j \<le> 2"
  shows "producer A blur n c x (y + j) =
     Some (fdiv A (fadd A (fadd A (elems (input blur) n c x (y + j))
                                  (elems (input blur) n c (x + 1) (y + j)))
                          (elems (input blur) n c (x + 2) (y + j)))
                  (fconst A 3))"
proof -
  have "in_bounds (input blur) n c x (y + j)"
    and "in_bounds (input blur) n c (x + 1) (y + j)"
    and "in_bounds (input blur) n c (x + 2) (y + j)"
    using in_bounds_output_taps [OF assms(1), of 0 j]
      in_bounds_output_taps [OF assms(1), of 1 j]
      in_bounds_output_taps [OF assms(1), of 2 j] assms(2,3)
    by simp_all
  then show ?thesis
    by (simp add: producer_def buffer_at_def)
qed

lemma consumer_in_bounds:
  assumes "in_bounds (get_output_buffer blur) n c x y"
  shows "consumer A blur n c x y =
     Some (fdiv A
       (fadd A
         (fadd A
           (fdiv A (fadd A (fadd A (elems (input blur) n c x y)
                                   (elems (input blur) n c (x + 1) y))
                           (elems (input blur) n c (x + 2) y))
                   (fconst A 3))
           (fdiv A (fadd A (fadd A (elems (input blur) n c x (y + 1))
                                   (elems (input blur) n c (x + 1) (y + 1)))
                           (elems (input blur) n c (x + 2) (y + 1)))
                   (fconst A 3)))
         (fdiv A (fadd A (fadd A (elems (input blur) n c x (y + 2))
                                 (elems (input blur) n c (x + 1) (y + 2)))
                         (elems (input blur) n c (x + 2) (y + 2)))
                 (fconst A 3)))
       (fconst A 3))"
  using producer_in_bounds [OF assms, of 0 A] producer_in_bounds [OF assms, of 1 A]
    producer_in_bounds [OF assms, of 2 A]
  by (simp add: consumer_def)

lemma constant_blur_in_bounds:
  "in_bounds (get_output_buffer (constant_blur k)) 0 0 0 0"
  "in_bounds (get_output_buffer (constant_blur k)) 31 7 255 255"
  by (simp_all add: in_bounds_def get_output_buffer_def constant_blur_def)

section \<open>The events of each function\<close>


lemma timing_loop_trace:
  "trace (timing_loop env p out num_runs i s) =
     trace s @ concat (replicate (nat (num_runs - i)) [Realize p out, DeviceSync])"
proof (induction env p out num_runs i s rule: timing_loop.induct)
  case (1 env p out num_runs i s)
  show ?case
  proof (cases "i < num_runs")
    case True
    then have "nat (num_runs - i) = Suc (nat (num_runs - (i + 1)))"
      by simp
    with True "1" show ?thesis
      by (subst timing_loop.simps) (simp add: timing_body_def Let_def)
  next
    case False
    then show ?thesis
      by (subst timing_loop.simps) simp
  qed
qed

lemma find_gpu_target_eq:
  "find_gpu_target env =
     (let host = get_host_target env;
          candidate = (if os host = OSX then Metal else CUDA) in
      if host_supports_target_device env (with_feature host candidate)
      then ([], with_feature host candidate)
      else ([Printf ''Requested GPU(s) are not supported. (Do you have the proper hardware and/or driver installed?)\<newline>'' []], host))"
  by (simp add: find_gpu_target_def Let_def)

lemma filter_replicate_pairs:
  assumes "P a" and "\<not> P b"
  shows "filter P (concat (replicate k [a, b])) = replicate k a"
  using assms by (induction k) simp_all

lemma filter_replicate_none:
  assumes "\<not> P a" and "\<not> P b"
  shows "filter P (concat (replicate k [a, b])) = []"
  using assms by (induction k) simp_all

lemma test_performance_events:
  "test_performance env blur num_runs =
     NewBuffer (get_output_buffer blur) # Realize (realized blur) (get_output_buffer blur) #
     concat (replicate (nat num_runs) [Realize (realized blur) (get_output_buffer blur), DeviceSync]) @
     drop (2 + 2 * nat num_runs) (test_performance env blur num_runs) \<and>
     (\<exists>avg best. drop (2 + 2 * nat num_runs) (test_performance env blur num_runs) =
       [Printf ''%d runs in total\<newline>'' [AInt num_runs],
        Printf ''Average: %1.4f milliseconds\<newline>'' [avg],
        Printf ''Best: %1.4f milliseconds\<newline>'' [ADouble best]])"
  by (simp add: test_performance_def Let_def timing_loop_trace length_concat sum_list_replicate)

lemma test_performance_realizes:
  "filter is_realize (test_performance env blur num_runs) =
     replicate (Suc (nat num_runs)) (Realize (realized blur) (get_output_buffer blur))"
  by (simp add: test_performance_def Let_def timing_loop_trace filter_replicate_pairs)

lemma test_performance_allocates:
  "filter is_allocation (test_performance env blur num_runs) = [NewBuffer (get_output_buffer blur)]"
  by (simp add: test_performance_def Let_def timing_loop_trace filter_replicate_none)

lemma test_performance_no_setup:
  "filter is_plugin_load (test_performance env blur num_runs) = []"
  "filter is_scheduling (test_performance env blur num_runs) = []"
  "filter is_compilation (test_performance env blur num_runs) = []"
  by (simp_all add: test_performance_def Let_def timing_loop_trace filter_replicate_none)

lemma find_gpu_target_events:
  "filter is_plugin_load (fst (find_gpu_target env)) = []"
  "filter is_scheduling (fst (find_gpu_target env)) = []"
  "filter is_compilation (fst (find_gpu_target env)) = []"
  "filter is_realize (fst (find_gpu_target env)) = []"
  "filter is_allocation (fst (find_gpu_target env)) = []"
  by (simp_all add: find_gpu_target_eq Let_def)

lemma schedule_for_gpu_events:
  "filter is_plugin_load (fst (schedule_for_gpu env blur)) = []"
  "filter is_realize (fst (schedule_for_gpu env blur)) = []"
  "filter is_allocation (fst (schedule_for_gpu env blur)) = []"
  using find_gpu_target_events [of env]
  by (auto simp add: schedule_for_gpu_def manual_cuda_schedule_def split: prod.splits)

lemma schedule_for_gpu_failed:
  assumes "\<not> has_gpu_feature (snd (find_gpu_target env))"
  shows "schedule_for_gpu env blur = (fst (find_gpu_target env), False)"
  using assms by (simp add: schedule_for_gpu_def case_prod_beta)

lemma main_run:
  assumes "length argv = 1 \<or> length argv = 2"
  shows "main A env argv =
     (announcement argv @
      [Printf ''Generating input with dimensions: batch_size: %d, height: %d, width: %d, channels: %d\<newline>''
         [AInt 32, AInt 258, AInt 258, AInt 8],
       NewBuffer \<lparr>extent0 = 32, extent1 = 8, extent2 = 258, extent3 = 258\<rparr>,
       Printf ''Running pipeline on GPU:\<newline>'' []] @
      fst (schedule_for_gpu env (blur_layer A env argv)) @
      [Printf ''Testing performance on GPU:\<newline>'' []] @
      test_performance env (blur_layer A env argv) 100,
      0)"
  using assms
  by (auto simp add: main_def run_benchmark_def Let_def announcement_def blur_layer_def
      random_input_def dims.truncate_def batch_size_def channels_in_def height_def width_def
      split: prod.splits)

section \<open>Rounding\<close>

lemma binade_eq:
  assumes "s \<le> e" and "e \<le> hi" and "2 powi e \<le> x" and "x < 2 powi (e + 1)"
  shows "binade hi s x = e"
  using assms
proof (induction hi s x rule: binade.induct)
  case (1 hi s x)
  show ?case
  proof (cases "s < hi \<and> 2 powi (s + 1) \<le> x")
    case True
    have "s \<noteq> e"
      using True "1.prems"(4) by auto
    with "1.prems"(1) have "s + 1 \<le> e"
      by simp
    with True "1.prems" "1.IH" show ?thesis
      by (subst binade.simps) simp
  next
    case False
    have "e \<le> s"
    proof (cases "s < hi")
      case True
      with False have "x < 2 powi (s + 1)"
        by simp
      with "1.prems"(3) have "(2::real) powi e < 2 powi (s + 1)"
        by simp
      moreover have "(2::real) powi (s + 1) \<le> 2 powi e" if "s + 1 \<le> e"
        using that by (intro power_int_increasing) simp_all
      ultimately show ?thesis
        by force
    next
      case False
      with "1.prems"(2) show ?thesis
        by simp
    qed
    with "1.prems"(1) have "s = e"
      by simp
    with False show ?thesis
      by (subst binade.simps) auto
  qed
qed

lemma binade_range:
  assumes "s \<le> hi"
  shows "s \<le> binade hi s x \<and> binade hi s x \<le> hi \<and>
         (2 powi s \<le> x \<longrightarrow> 2 powi (binade hi s x) \<le> x) \<and>
         (x < 2 powi (hi + 1) \<longrightarrow> x < 2 powi (binade hi s x + 1))"
  using assms
proof (induction hi s x rule: binade.induct)
  case (1 hi s x)
  show ?case
  proof (cases "s < hi \<and> 2 powi (s + 1) \<le> x")
    case True
    then have step: "binade hi s x = binade hi (s + 1) x"
      by (subst binade.simps) simp
    have "s + 1 \<le> binade hi (s + 1) x \<and> binade hi (s + 1) x \<le> hi \<and>
         (2 powi (s + 1) \<le> x \<longrightarrow> 2 powi (binade hi (s + 1) x) \<le> x) \<and>
         (x < 2 powi (hi + 1) \<longrightarrow> x < 2 powi (binade hi (s + 1) x + 1))"
      using True by (intro "1.IH") simp_all
    with True show ?thesis
      by (simp add: step)
  next
    case False
    then have stop: "binade hi s x = s"
      by (subst binade.simps) auto
    have "x < 2 powi (s + 1)" if "x < 2 powi (hi + 1)"
    proof (cases "s < hi")
      case True
      with False show ?thesis by simp
    next
      case False
      with "1.prems"(1) have "s = hi" by simp
      with that show ?thesis by simp
    qed
    with "1.prems" show ?thesis
      by (simp add: stop)
  qed
qed

lemma binade_subnormal:
  assumes "x < 2 powi (s + 1)"
  shows "binade hi s x = s"
  using assms by (subst binade.simps) simp

text \<open>
  At and above \<open>2 powi hi\<close> the search stops at \<open>hi\<close>.
\<close>

lemma binade_top:
  "s \<le> hi \<Longrightarrow> 2 powi hi \<le> x \<Longrightarrow> binade hi s x = hi"
proof (induction hi s x rule: binade.induct)
  case (1 hi s x)
  show ?case
  proof (cases "s < hi")
    case True
    then have "s + 1 \<le> hi"
      by simp
    then have "(2::real) powi (s + 1) \<le> 2 powi hi"
      by (intro power_int_increasing) simp_all
    with 1 True show ?thesis
      by (subst binade.simps) simp
  next
    case False
    with 1 show ?thesis
      by (subst binade.simps) simp
  qed
qed

lemma round_to_normal:
  assumes "emin f \<le> e" and "e \<le> emax f"
    and "2 powi e \<le> \<bar>x\<bar>" and "\<bar>x\<bar> < 2 powi (e + 1)"
    and "round_half_even (x / 2 powi (e - (precision f - 1))) = m"
    and "real_of_int m * 2 powi (e - (precision f - 1)) = r"
    and "r < 2 powi (emax f + 1)" and "- (2 powi (emax f + 1)) < r"
  shows "round_to f x = Finite r"
proof -
  have "binade (emax f) (emin f) \<bar>x\<bar> = e"
    using assms(1-4) by (rule binade_eq)
  with assms(5-8) show ?thesis
    by (simp add: round_to_def Let_def)
qed

lemma round_float32_normal:
  assumes "- 126 \<le> e" and "e \<le> 127"
    and "2 powi e \<le> \<bar>x\<bar>" and "\<bar>x\<bar> < 2 powi (e + 1)"
    and "round_half_even (x / 2 powi (e - 23)) = m"
    and "real_of_int m * 2 powi (e - 23) = r"
    and "r < 2 powi 128" and "- (2 powi 128) < r"
  shows "round_float32 x = Finite r"
  using assms by (intro round_to_normal [where e = e and m = m]) (simp_all add: binary32_def)

lemma round_double_normal:
  assumes "- 1022 \<le> e" and "e \<le> 1023"
    and "2 powi e \<le> \<bar>x\<bar>" and "\<bar>x\<bar> < 2 powi (e + 1)"
    and "round_half_even (x / 2 powi (e - 52)) = m"
    and "real_of_int m * 2 powi (e - 52) = r"
    and "r < 2 powi 1024" and "- (2 powi 1024) < r"
  shows "round_double x = Finite r"
  using assms by (intro round_to_normal [where e = e and m = m]) (simp_all add: binary64_def)

text \<open>
  The result of rounding is within half a spacing of the number rounded: the error is at
  most the number's magnitude times \<open>2 powi (- precision)\<close>, plus half the spacing of the
  subnormal numbers, and the sign is kept.
\<close>

lemma round_half_even_close: "\<bar>real_of_int (round_half_even q) - q\<bar> \<le> 1 / 2"
proof -
  have "real_of_int \<lfloor>q\<rfloor> \<le> q" and "q < real_of_int \<lfloor>q\<rfloor> + 1"
    by linarith+
  then show ?thesis
    by (auto simp add: round_half_even_def Let_def)
qed

lemma round_half_even_sign:
  "0 \<le> q \<Longrightarrow> 0 \<le> round_half_even q"
  "q \<le> 0 \<Longrightarrow> round_half_even q \<le> 0"
proof -
  have f: "real_of_int \<lfloor>q\<rfloor> \<le> q" "q < real_of_int \<lfloor>q\<rfloor> + 1"
    by linarith+
  show "0 \<le> round_half_even q" if "0 \<le> q"
  proof -
    have "0 \<le> \<lfloor>q\<rfloor>" using that by simp
    then show ?thesis
      by (auto simp add: round_half_even_def Let_def)
  qed
  show "round_half_even q \<le> 0" if "q \<le> 0"
  proof (cases "q = real_of_int \<lfloor>q\<rfloor>")
    case True
    then have "round_half_even q = \<lfloor>q\<rfloor>"
      by (simp add: round_half_even_def Let_def)
    with that show ?thesis by simp
  next
    case False
    with f that have "\<lfloor>q\<rfloor> + 1 \<le> 0"
      by linarith
    then show ?thesis
      by (auto simp add: round_half_even_def Let_def)
  qed
qed

lemma round_to_error:
  assumes "emin f \<le> emax f"
  shows "\<exists>r. \<bar>r - x\<bar> \<le> \<bar>x\<bar> * 2 powi (- precision f) + 2 powi (emin f - precision f) \<and>
           (0 \<le> x \<longrightarrow> 0 \<le> r) \<and> (x \<le> 0 \<longrightarrow> r \<le> 0) \<and>
           round_to f x =
             (if 2 powi (emax f + 1) \<le> r then PlusInfinity
              else if r \<le> - (2 powi (emax f + 1)) then MinusInfinity
              else Finite r)"
proof -
  define e where "e = binade (emax f) (emin f) \<bar>x\<bar>"
  define q :: real where "q = 2 powi (e - (precision f - 1))"
  define r where "r = real_of_int (round_half_even (x / q)) * q"
  have qpos: "0 < q"
    by (simp add: q_def)
  have half: "q / 2 = 2 powi (e - precision f)"
  proof -
    have "(2::real) powi ((e - precision f) + 1) = 2 powi (e - precision f) * 2 powi 1"
      by (rule power_int_add) simp
    moreover have eq: "e - (precision f - 1) = (e - precision f) + 1"
      by simp
    have "q = 2 powi ((e - precision f) + 1)"
      by (simp only: q_def eq)
    ultimately have "q = 2 powi (e - precision f) * 2"
      by simp
    then show ?thesis by simp
  qed
  have "\<bar>real_of_int (round_half_even (x / q)) - x / q\<bar> * q \<le> 1 / 2 * q"
    using round_half_even_close [of "x / q"] qpos by (intro mult_right_mono) simp_all
  moreover have "\<bar>real_of_int (round_half_even (x / q)) - x / q\<bar> * q = \<bar>r - x\<bar>"
  proof -
    have "\<bar>real_of_int (round_half_even (x / q)) - x / q\<bar> * q =
        \<bar>(real_of_int (round_half_even (x / q)) - x / q) * q\<bar>"
      using qpos by (simp add: abs_mult)
    also have "(real_of_int (round_half_even (x / q)) - x / q) * q = r - x"
      using qpos by (simp add: r_def algebra_simps)
    finally show ?thesis .
  qed
  ultimately have close: "\<bar>r - x\<bar> \<le> 2 powi (e - precision f)"
    using half by simp
  have range: "emin f \<le> e" "e \<le> emax f"
    "2 powi (emin f) \<le> \<bar>x\<bar> \<longrightarrow> 2 powi e \<le> \<bar>x\<bar>"
    using binade_range [OF assms, of "\<bar>x\<bar>"] by (simp_all add: e_def)
  have "2 powi (e - precision f) \<le>
      \<bar>x\<bar> * 2 powi (- precision f) + 2 powi (emin f - precision f)"
  proof (cases "2 powi (emin f) \<le> \<bar>x\<bar>")
    case True
    with range(3) have "2 powi e \<le> \<bar>x\<bar>"
      by simp
    then have "2 powi e * 2 powi (- precision f) \<le> \<bar>x\<bar> * 2 powi (- precision f)"
      by (intro mult_right_mono) simp_all
    moreover have "(2::real) powi (e - precision f) = 2 powi e * 2 powi (- precision f)"
      using power_int_add [of "2::real" e "- precision f"] by simp
    moreover have "(0::real) \<le> 2 powi (emin f - precision f)"
      by simp
    ultimately show ?thesis
      by linarith
  next
    case False
    have "(2::real) powi (emin f) \<le> 2 powi (emin f + 1)"
      by (intro power_int_increasing) simp_all
    with False have "\<bar>x\<bar> < 2 powi (emin f + 1)"
      by linarith
    then have "e = emin f"
      unfolding e_def by (rule binade_subnormal)
    moreover have "0 \<le> \<bar>x\<bar> * 2 powi (- precision f)"
      by simp
    ultimately show ?thesis
      by simp
  qed
  with close have bound: "\<bar>r - x\<bar> \<le> \<bar>x\<bar> * 2 powi (- precision f) + 2 powi (emin f - precision f)"
    by linarith
  have pos: "0 \<le> r" if "0 \<le> x"
    using that qpos round_half_even_sign(1) [of "x / q"] by (simp add: r_def)
  have neg: "r \<le> 0" if "x \<le> 0"
  proof -
    have "x / q \<le> 0"
      using that qpos by (simp add: divide_le_0_iff)
    then have "round_half_even (x / q) \<le> 0"
      by (rule round_half_even_sign(2))
    then have "real_of_int (round_half_even (x / q)) \<le> 0"
      by simp
    with qpos show ?thesis
      unfolding r_def by (simp add: mult_le_0_iff)
  qed
  have "round_to f x =
             (if 2 powi (emax f + 1) \<le> r then PlusInfinity
              else if r \<le> - (2 powi (emax f + 1)) then MinusInfinity
              else Finite r)"
    by (simp add: round_to_def Let_def r_def q_def e_def)
  with bound pos neg show ?thesis
    by blast
qed

text \<open>
  The integers that fit the significand are values of the format.
\<close>

lemma round_half_even_of_int: "round_half_even (real_of_int n) = n"
  by (simp add: round_half_even_def)

lemma round_to_of_int:
  assumes "emin f \<le> 0" and "1 \<le> precision f" and "precision f - 1 \<le> emax f"
    and "\<bar>m\<bar> < 2 ^ nat (precision f)"
  shows "round_to f (real_of_int m) = Finite (real_of_int m)"
proof (cases "m = 0")
  case True
  have "binade (emax f) (emin f) 0 = emin f"
    by (rule binade_subnormal) simp
  moreover have "(0::real) < 2 powi (emax f + 1)"
    by simp
  ultimately show ?thesis
    using True by (simp add: round_to_def round_half_even_def not_le)
next
  case False
  define p where "p = precision f"
  define x where "x = \<bar>real_of_int m\<bar>"
  define e where "e = binade (emax f) (emin f) x"
  have one: "1 \<le> x"
    using False by (simp add: x_def)
  have "\<bar>real_of_int m\<bar> < 2 ^ nat p"
    using assms(4) unfolding p_def by (metis of_int_abs of_int_less_numeral_power_cancel_iff)
  then have less: "x < 2 powi p"
    using assms(2) by (simp add: x_def p_def power_int_def)
  have "(2::real) powi (emin f) \<le> 2 powi 0"
    using assms(1) by (intro power_int_increasing) simp_all
  with one have low: "2 powi (emin f) \<le> x"
    by simp
  have "(2::real) powi p \<le> 2 powi (emax f + 1)"
    using assms(3) by (intro power_int_increasing) (simp_all add: p_def)
  with less have high: "x < 2 powi (emax f + 1)"
    by linarith
  have "emin f \<le> emax f"
    using assms(1-3) by simp
  with low high have b: "2 powi e \<le> x" "x < 2 powi (e + 1)"
    using binade_range [of "emin f" "emax f" x] by (simp_all add: e_def)
  have "0 \<le> e"
  proof (rule ccontr)
    assume "\<not> 0 \<le> e"
    then have "e + 1 \<le> 0" by simp
    then have "(2::real) powi (e + 1) \<le> 2 powi 0"
      by (intro power_int_increasing) simp_all
    with b(2) one show False by simp
  qed
  have "e \<le> p - 1"
  proof (rule ccontr)
    assume "\<not> e \<le> p - 1"
    then have "p \<le> e" by simp
    then have "(2::real) powi p \<le> 2 powi e"
      by (intro power_int_increasing) simp_all
    with b(1) less show False by simp
  qed
  define d where "d = nat (p - 1 - e)"
  have q: "(2::real) powi (e - (p - 1)) = inverse (2 ^ d)"
    using \<open>e \<le> p - 1\<close>
    by (cases "e = p - 1")
      (simp_all add: power_int_def d_def power_one_over [symmetric] inverse_eq_divide)
  have "real_of_int m / 2 powi (e - (p - 1)) = real_of_int (m * 2 ^ d)"
    by (simp add: q divide_inverse)
  then have r: "round_half_even (real_of_int m / 2 powi (e - (p - 1))) = m * 2 ^ d"
    by (simp only: round_half_even_of_int)
  have scaled: "real_of_int (m * 2 ^ d) * 2 powi (e - (p - 1)) = real_of_int m"
    by (simp add: q)
  have bin: "binade (emax f) (emin f) \<bar>real_of_int m\<bar> = e"
    by (simp add: e_def x_def)
  have kept: "real_of_int (round_half_even (real_of_int m / 2 powi (e - (p - 1)))) *
      2 powi (e - (p - 1)) = real_of_int m"
    by (simp only: r scaled)
  have "\<bar>real_of_int m\<bar> < 2 powi (emax f + 1)"
    using high by (simp add: x_def)
  then have "\<not> 2 powi (emax f + 1) \<le> real_of_int m"
    and "\<not> real_of_int m \<le> - (2 powi (emax f + 1))"
    by linarith+
  then show ?thesis
    unfolding round_to_def Let_def bin p_def [symmetric] kept by (simp only: if_False)
qed

lemma round_float32_of_int:
  assumes "\<bar>m\<bar> < 2 ^ 24"
  shows "round_float32 (real_of_int m) = Finite (real_of_int m)"
  using assms by (intro round_to_of_int) (simp_all add: binary32_def)

lemma round_double_of_int:
  assumes "\<bar>m\<bar> < 2 ^ 53"
  shows "round_double (real_of_int m) = Finite (real_of_int m)"
  using assms by (intro round_to_of_int) (simp_all add: binary64_def)

text \<open>
  One rounding in numbers: a real of magnitude at most \<open>7 * 2 powi 125\<close> rounds to
  a finite float within the relative error and the subnormal error; a non-negative real
  rounds to a non-negative double or to \<open>+\<infinity>\<close>, not below the same allowance.
\<close>

lemma float_roundoff_eq: "float_roundoff = 1 / 16777216"
  by (simp add: float_roundoff_def)

lemma float_tiny_range: "0 \<le> float_tiny" "float_tiny \<le> 1"
  by (simp_all add: float_tiny_def)

lemma round_float32_close:
  assumes "\<bar>x\<bar> \<le> 7 * 2 powi 125"
  shows "\<exists>r. round_float32 x = Finite r \<and> \<bar>r - x\<bar> \<le> \<bar>x\<bar> * float_roundoff + float_tiny"
proof -
  obtain r where r: "\<bar>r - x\<bar> \<le> \<bar>x\<bar> * 2 powi (- 24) + 2 powi (- 150)"
    and v: "round_float32 x =
      (if 2 powi 128 \<le> r then PlusInfinity
       else if r \<le> - (2 powi 128) then MinusInfinity else Finite r)"
  proof -
    have "emin binary32 \<le> emax binary32"
      by (simp add: binary32_def)
    from round_to_error [OF this, of x] obtain r where
      "\<bar>r - x\<bar> \<le> \<bar>x\<bar> * 2 powi (- precision binary32) +
         2 powi (emin binary32 - precision binary32)"
      "round_float32 x =
        (if 2 powi (emax binary32 + 1) \<le> r then PlusInfinity
         else if r \<le> - (2 powi (emax binary32 + 1)) then MinusInfinity else Finite r)"
      by blast
    moreover have "precision binary32 = 24" "emin binary32 - precision binary32 = - 150"
      "emax binary32 + 1 = 128"
      by (simp_all add: binary32_def)
    ultimately show ?thesis
      using that by (simp only:)
  qed
  have "\<bar>x\<bar> * 2 powi (- 24) \<le> 7 * 2 powi 125 * 2 powi (- 24)"
    using assms by (intro mult_right_mono) simp_all
  with r assms have "\<bar>r\<bar> \<le> 7 * 2 powi 125 + 7 * 2 powi 125 * 2 powi (- 24) + 2 powi (- 150)"
    by linarith
  also have "\<dots> < 2 powi 128"
    by simp
  finally have "\<bar>r\<bar> < 2 powi 128" .
  then have "\<not> 2 powi 128 \<le> r" "\<not> r \<le> - (2 powi 128)"
    by linarith+
  with v have "round_float32 x = Finite r"
    by (simp only: if_False)
  with r show ?thesis
    by (auto simp only: float_roundoff_def float_tiny_def)
qed

lemma double_constants:
  "0 \<le> 1 - double_roundoff" "1 - double_roundoff \<le> 1" "0 \<le> double_tiny"
  "0 \<le> double_roundoff"
  by (simp_all add: double_roundoff_def double_tiny_def)

lemma at_least_mono: "at_least v x \<Longrightarrow> y \<le> x \<Longrightarrow> at_least v y"
  by (cases v) simp_all

lemma round_double_lower:
  assumes "0 \<le> x"
  shows "non_negative (round_double x) \<and>
         at_least (round_double x) (x * (1 - double_roundoff) - double_tiny)"
proof -
  obtain r where r: "\<bar>r - x\<bar> \<le> \<bar>x\<bar> * 2 powi (- 53) + 2 powi (- 1075)" "0 \<le> r"
    and v: "round_double x =
      (if 2 powi 1024 \<le> r then PlusInfinity
       else if r \<le> - (2 powi 1024) then MinusInfinity else Finite r)"
  proof -
    have "emin binary64 \<le> emax binary64"
      by (simp add: binary64_def)
    from round_to_error [OF this, of x] obtain r where
      "\<bar>r - x\<bar> \<le> \<bar>x\<bar> * 2 powi (- precision binary64) +
         2 powi (emin binary64 - precision binary64)"
      "0 \<le> x \<longrightarrow> 0 \<le> r"
      "round_double x =
        (if 2 powi (emax binary64 + 1) \<le> r then PlusInfinity
         else if r \<le> - (2 powi (emax binary64 + 1)) then MinusInfinity else Finite r)"
      by blast
    moreover have "precision binary64 = 53" "emin binary64 - precision binary64 = - 1075"
      "emax binary64 + 1 = 1024"
      by (simp_all add: binary64_def)
    ultimately show ?thesis
      using assms that by (simp only:)
  qed
  have "\<not> r \<le> - (2 powi 1024)"
  proof -
    have "(0::real) < 2 powi 1024" by simp
    with r(2) show ?thesis by linarith
  qed
  with v have cases: "round_double x = PlusInfinity \<or> round_double x = Finite r"
    by (simp split: if_splits)
  have "x * (1 - double_roundoff) - double_tiny \<le> r"
    using r(1) assms unfolding double_roundoff_def double_tiny_def
    by (simp add: algebra_simps abs_le_iff)
  with cases r(2) show ?thesis
    by auto
qed

text \<open>
  The ends of the range of \<^verbatim>\<open>float\<close>: the largest finite number is kept, the point
  halfway between it and the next power of two overflows, and halfway points between
  subnormal numbers go to the even neighbour.
\<close>

lemma round_float32_largest:
  "round_float32 (2 powi 128 - 2 powi 104) = Finite (2 powi 128 - 2 powi 104)"
proof -
  have "binade 127 (- 126) \<bar>2 powi 128 - 2 powi 104 :: real\<bar> = 127"
    by (rule binade_eq) simp_all
  then show ?thesis
    by (simp add: round_to_def binary32_def Let_def round_half_even_def)
qed

lemma round_float32_overflow:
  "round_float32 (2 powi 128 - 2 powi 103) = PlusInfinity"
proof -
  have "binade 127 (- 126) \<bar>2 powi 128 - 2 powi 103 :: real\<bar> = 127"
    by (rule binade_eq) simp_all
  then show ?thesis
    by (simp add: round_to_def binary32_def Let_def round_half_even_def)
qed

lemma round_float32_subnormal:
  "round_float32 (3 / 2 * 2 powi (- 149)) = Finite (2 * 2 powi (- 149))"
  "round_float32 (1 / 2 * 2 powi (- 149)) = Finite 0"
proof -
  have "binade 127 (- 126) \<bar>3 / 2 * 2 powi (- 149) :: real\<bar> = - 126"
    by (rule binade_subnormal) simp
  then show "round_float32 (3 / 2 * 2 powi (- 149)) = Finite (2 * 2 powi (- 149))"
    by (simp add: round_to_def binary32_def Let_def round_half_even_def)
  have "binade 127 (- 126) \<bar>1 / 2 * 2 powi (- 149) :: real\<bar> = - 126"
    by (rule binade_subnormal) simp
  then show "round_float32 (1 / 2 * 2 powi (- 149)) = Finite 0"
    by (simp add: round_to_def binary32_def Let_def round_half_even_def)
qed

text \<open>
  The roundings that the examples below need.
\<close>

lemma round_float32_3: "round_float32 3 = Finite 3"
  by (rule round_float32_normal [where e = 1 and m = 12582912])
    (simp_all add: round_half_even_def Let_def)

lemma round_float32_6: "round_float32 6 = Finite 6"
  by (rule round_float32_normal [where e = 2 and m = 12582912])
    (simp_all add: round_half_even_def Let_def)

lemma round_float32_9: "round_float32 9 = Finite 9"
  by (rule round_float32_normal [where e = 3 and m = 9437184])
    (simp_all add: round_half_even_def Let_def)

lemma round_float32_22369636: "round_float32 22369636 = Finite 22369636"
  by (rule round_float32_normal [where e = 24 and m = 11184818])
    (simp_all add: round_half_even_def Let_def)

lemma round_float32_33554454: "round_float32 33554454 = Finite 33554456"
  by (rule round_float32_normal [where e = 25 and m = 8388614])
    (simp_all add: round_half_even_def Let_def)

lemma round_float32_third_of_33554456: "round_float32 (33554456 / 3) = Finite 11184819"
  by (rule round_float32_normal [where e = 23 and m = 11184819])
    (simp_all add: round_half_even_def Let_def)

lemma round_float32_22369638: "round_float32 22369638 = Finite 22369638"
  by (rule round_float32_normal [where e = 24 and m = 11184819])
    (simp_all add: round_half_even_def Let_def)

lemma round_float32_33554457: "round_float32 33554457 = Finite 33554456"
  by (rule round_float32_normal [where e = 25 and m = 8388614])
    (simp_all add: round_half_even_def Let_def)

lemma round_float32_22369652: "round_float32 22369652 = Finite 22369652"
  by (rule round_float32_normal [where e = 24 and m = 11184826])
    (simp_all add: round_half_even_def Let_def)

lemma round_float32_33554478: "round_float32 33554478 = Finite 33554480"
  by (rule round_float32_normal [where e = 25 and m = 8388620])
    (simp_all add: round_half_even_def Let_def)

lemma round_float32_third_of_33554480: "round_float32 (33554480 / 3) = Finite 11184827"
  by (rule round_float32_normal [where e = 23 and m = 11184827])
    (simp_all add: round_half_even_def Let_def)

lemma round_float32_22369654: "round_float32 22369654 = Finite 22369654"
  by (rule round_float32_normal [where e = 24 and m = 11184827])
    (simp_all add: round_half_even_def Let_def)

lemma round_float32_33554481: "round_float32 33554481 = Finite 33554480"
  by (rule round_float32_normal [where e = 25 and m = 8388620])
    (simp_all add: round_half_even_def Let_def)

lemma round_float32_two_128: "round_float32 (2 powi 127 + 2 powi 127) = PlusInfinity"
proof -
  have "binade 127 (- 126) \<bar>2 powi 127 + 2 powi 127 :: real\<bar> = 127"
    by (rule binade_top) simp_all
  then show ?thesis
    by (simp add: round_to_def binary32_def Let_def round_half_even_def)
qed

lemma round_float32_third: "round_float32 (1 / 3) = Finite (11184811 / 33554432)"
  by (rule round_float32_normal [where e = "- 2" and m = 11184811])
    (simp_all add: round_half_even_def Let_def)

lemma round_float32_reciprocal:
  "round_float32 (33554456 * (11184811 / 33554432)) = Finite 11184819"
  by (rule round_float32_normal [where e = 23 and m = 11184819])
    (simp_all add: round_half_even_def Let_def)

text \<open>
  The average of three equal floats: exact for an integer whose triple is below
  \<open>2 ^ 24\<close>, and one unit too large for 11184818.
\<close>

lemma rounded_average_of_int:
  assumes "\<bar>k\<bar> \<le> 5592405"
  shows "fdiv rounded
           (fadd rounded (fadd rounded (Finite (real_of_int k)) (Finite (real_of_int k)))
              (Finite (real_of_int k)))
           (fconst rounded 3) = Finite (real_of_int k)"
proof -
  have two: "round_float32 (real_of_int k + real_of_int k) = Finite (real_of_int (2 * k))"
    using round_float32_of_int [of "2 * k"] assms by simp
  have three: "round_float32 (real_of_int (2 * k) + real_of_int k) = Finite (real_of_int (3 * k))"
    using round_float32_of_int [of "3 * k"] assms by simp
  have lit: "round_float32 (real_of_int 3) = Finite 3"
    using round_float32_of_int [of 3] by simp
  have third: "round_float32 (real_of_int (3 * k) / 3) = Finite (real_of_int k)"
    using round_float32_of_int [of k] assms by simp
  show ?thesis
    by (simp only: rounded_def arith.simps ieee_add.simps ieee_div.simps two three lit third)
      simp
qed

lemma rounded_average_3:
  "fdiv rounded (fadd rounded (fadd rounded (Finite 3) (Finite 3)) (Finite 3)) (fconst rounded 3) =
     Finite 3"
  by (simp add: rounded_def round_float32_3 round_float32_6 round_float32_9)

lemma rounded_average_11184818:
  "fdiv rounded (fadd rounded (fadd rounded (Finite 11184818) (Finite 11184818)) (Finite 11184818))
     (fconst rounded 3) = Finite 11184819"
  by (simp add: rounded_def round_float32_3 round_float32_22369636 round_float32_33554454
      round_float32_third_of_33554456)

lemma rounded_average_11184819:
  "fdiv rounded (fadd rounded (fadd rounded (Finite 11184819) (Finite 11184819)) (Finite 11184819))
     (fconst rounded 3) = Finite 11184819"
  by (simp add: rounded_def round_float32_3 round_float32_22369638 round_float32_33554457
      round_float32_third_of_33554456)

lemma rounded_average_11184826:
  "fdiv rounded (fadd rounded (fadd rounded (Finite 11184826) (Finite 11184826)) (Finite 11184826))
     (fconst rounded 3) = Finite 11184827"
  by (simp add: rounded_def round_float32_3 round_float32_22369652 round_float32_33554478
      round_float32_third_of_33554480)

lemma rounded_average_11184827:
  "fdiv rounded (fadd rounded (fadd rounded (Finite 11184827) (Finite 11184827)) (Finite 11184827))
     (fconst rounded 3) = Finite 11184827"
  by (simp add: rounded_def round_float32_3 round_float32_22369654 round_float32_33554481
      round_float32_third_of_33554480)

text \<open>
  The sum of two floats \<open>2 powi 127\<close> overflows, and so does every sum and quotient
  made of it.
\<close>

lemma rounded_average_overflow:
  "fdiv rounded (fadd rounded (fadd rounded (Finite (2 powi 127)) (Finite (2 powi 127)))
     (Finite (2 powi 127))) (fconst rounded 3) = PlusInfinity"
proof -
  have lit: "round_float32 (real_of_int 3) = Finite 3"
    using round_float32_of_int [of 3] by simp
  show ?thesis
    by (simp only: rounded_def arith.simps ieee_add.simps ieee_div.simps round_float32_two_128
        lit) simp
qed

lemma rounded_average_infinity:
  "fdiv rounded (fadd rounded (fadd rounded PlusInfinity PlusInfinity) PlusInfinity)
     (fconst rounded 3) = PlusInfinity"
  by (simp add: rounded_def round_float32_3)

text \<open>
  The roundings to \<^verbatim>\<open>double\<close> that the examples below need.
\<close>

lemma round_double_numerals:
  "round_double 1 = Finite 1" "round_double 2 = Finite 2" "round_double 3 = Finite 3"
  "round_double (- 2) = Finite (- 2)"
  using round_double_of_int [of 1] round_double_of_int [of 2] round_double_of_int [of 3]
    round_double_of_int [of "- 2"]
  by simp_all

lemma round_double_elapsed:
  "round_double (4503599627370479 / 2251799813685248) =
     Finite (4503599627370479 / 2251799813685248)"
  by (rule round_double_normal [where e = 0 and m = 9007199254740958])
     (simp_all add: round_half_even_def Let_def)

lemma round_double_two_elapsed:
  "round_double (4503599627370479 / 1125899906842624) =
     Finite (4503599627370479 / 1125899906842624)"
  by (rule round_double_normal [where e = 1 and m = 9007199254740958])
     (simp_all add: round_half_even_def Let_def)

lemma round_double_three_elapsed:
  "round_double (13510798882111437 / 2251799813685248) =
     Finite (3377699720527859 / 562949953421312)"
  by (rule round_double_normal [where e = 2 and m = 6755399441055718])
     (simp_all add: round_half_even_def Let_def)

lemma round_double_third:
  "round_double (3377699720527859 / 1688849860263936) =
     Finite (9007199254740957 / 4503599627370496)"
  by (rule round_double_normal [where e = 0 and m = 9007199254740957])
     (simp_all add: round_half_even_def Let_def)

section \<open>The stages and the reference computation\<close>

text \<open>
  In exact arithmetic, at every coordinate \<open>(n, c, x, y)\<close> of the output shape, the
  producer stage at \<open>(n, c, x, y + j)\<close> is a third of the sum of the three input elements
  at \<open>x\<close>, \<open>x + 1\<close>, \<open>x + 2\<close> of the third coordinate, and the consumer stage is
  \<open>(1/3) \<Sum>\<^sub>j (1/3) \<Sum>\<^sub>i input(n, c, x + i, y + j)\<close> with \<open>i\<close> and \<open>j\<close> from 0 to 2: the
  stage definitions, read without rounding, are the reference computation.
\<close>

lemma exact_stages_are_reference:
  assumes "in_bounds (get_output_buffer blur) n c x y"
  shows "(\<forall>j\<in>{0, 1, 2}.
            producer exact blur n c x (y + j) =
              Some (1 / 3 * (\<Sum>i\<in>{0, 1, 2}. elems (input blur) n c (x + i) (y + j)))) \<and>
         consumer exact blur n c x y =
           Some (1 / 3 * (\<Sum>j\<in>{0, 1, 2}.
                   1 / 3 * (\<Sum>i\<in>{0, 1, 2}. elems (input blur) n c (x + i) (y + j))))"
proof -
  have "producer exact blur n c x (y + j) =
          Some (1 / 3 * (\<Sum>i\<in>{0, 1, 2}. elems (input blur) n c (x + i) (y + j)))"
    if "j \<in> {0, 1, 2}" for j :: int
    using that producer_in_bounds [OF assms, of j exact] by (auto simp add: exact_def)
  moreover have "consumer exact blur n c x y =
           Some (1 / 3 * (\<Sum>j\<in>{0, 1, 2}.
                   1 / 3 * (\<Sum>i\<in>{0, 1, 2}. elems (input blur) n c (x + i) (y + j))))"
    by (simp add: consumer_in_bounds [OF assms] exact_def add_divide_distrib)
  ultimately show ?thesis
    by blast
qed

text \<open>
  The stages compute on \<^verbatim>\<open>float\<close>, where each of the two additions and the division
  of a stage rounds. The error of one stage on three finite floats of magnitude at most
  \<open>M\<close> is bounded first in numbers, then for the operations of \<open>rounded\<close>.
\<close>

lemma abs_diff_triangle:
  fixes x y z :: real
  shows "\<bar>x - z\<bar> \<le> \<bar>x - y\<bar> + \<bar>y - z\<bar>"
  by linarith

lemma stage_error:
  fixes a b c r1 r2 p M h :: real
  assumes "\<bar>a\<bar> \<le> M" "\<bar>b\<bar> \<le> M" "\<bar>c\<bar> \<le> M" "0 \<le> h"
    and r1: "\<bar>r1 - (a + b)\<bar> \<le> \<bar>a + b\<bar> / 16777216 + h"
  shows "\<bar>r1 + c\<bar> \<le> 3 * M + 2 * M / 16777216 + h"
    and "\<bar>r2 - (r1 + c)\<bar> \<le> \<bar>r1 + c\<bar> / 16777216 + h \<Longrightarrow> \<bar>r2\<bar> \<le> 4 * M + 3 * h"
    and "\<bar>r2 - (r1 + c)\<bar> \<le> \<bar>r1 + c\<bar> / 16777216 + h \<Longrightarrow>
         \<bar>p - r2 / 3\<bar> \<le> \<bar>r2 / 3\<bar> / 16777216 + h \<Longrightarrow>
         \<bar>p - (a + b + c) / 3\<bar> \<le> 3 * M / 16777216 + 2 * h"
proof -
  define d1 where "d1 = \<bar>r1 - (a + b)\<bar>"
  define d2 where "d2 = \<bar>r2 - (r1 + c)\<bar>"
  define d3 where "d3 = \<bar>p - r2 / 3\<bar>"
  define s1 where "s1 = \<bar>a + b\<bar>"
  define s2 where "s2 = \<bar>r1 + c\<bar>"
  define s3 where "s3 = \<bar>r2\<bar>"
  define w where "w = \<bar>r2 - (a + b + c)\<bar>"
  define g where "g = \<bar>r2 / 3 - (a + b + c) / 3\<bar>"
  define t where "t = \<bar>p - (a + b + c) / 3\<bar>"
  have M: "0 \<le> M"
    using assms(1) by linarith
  have s1: "s1 \<le> 2 * M"
    using assms(1,2) unfolding s1_def by linarith
  have e1: "d1 \<le> s1 / 16777216 + h"
    using r1 unfolding d1_def s1_def .
  have s2: "s2 \<le> s1 + d1 + M"
    using assms(3) unfolding s1_def s2_def d1_def by linarith
  have s3: "s3 \<le> s2 + d2"
    unfolding s2_def s3_def d2_def by linarith
  have w: "w \<le> d1 + d2"
    unfolding w_def d1_def d2_def by linarith
  have g: "g = w / 3"
    unfolding g_def w_def
    by (simp add: diff_divide_distrib [symmetric])
  have t: "t \<le> d3 + g"
    unfolding t_def d3_def g_def by (rule abs_diff_triangle)
  from s1 e1 s2 M \<open>0 \<le> h\<close> have "s2 \<le> 3 * M + 2 * M / 16777216 + h"
    by linarith
  then show "\<bar>r1 + c\<bar> \<le> 3 * M + 2 * M / 16777216 + h"
    unfolding s2_def .
  {
    assume "\<bar>r2 - (r1 + c)\<bar> \<le> \<bar>r1 + c\<bar> / 16777216 + h"
    then have e2: "d2 \<le> s2 / 16777216 + h"
      unfolding d2_def s2_def .
    from s1 e1 s2 e2 s3 M \<open>0 \<le> h\<close> have "s3 \<le> 4 * M + 3 * h"
      by linarith
    then show "\<bar>r2\<bar> \<le> 4 * M + 3 * h"
      unfolding s3_def .
    assume p: "\<bar>p - r2 / 3\<bar> \<le> \<bar>r2 / 3\<bar> / 16777216 + h"
    have "\<bar>r2 / 3\<bar> = s3 / 3"
      unfolding s3_def by simp
    with p have e3: "d3 \<le> s3 / 3 / 16777216 + h"
      unfolding d3_def by simp
    from s1 e1 s2 e2 s3 e3 w g t M \<open>0 \<le> h\<close>
    have "t \<le> 3 * M / 16777216 + 2 * h"
      by linarith
    then show "\<bar>p - (a + b + c) / 3\<bar> \<le> 3 * M / 16777216 + 2 * h"
      unfolding t_def .
  }
qed

lemma float_average_close:
  assumes "\<bar>a\<bar> \<le> M" "\<bar>b\<bar> \<le> M" "\<bar>c\<bar> \<le> M" and "M \<le> 2 powi 126 + 2 powi 104"
  shows "\<exists>p. fdiv rounded (fadd rounded (fadd rounded (Finite a) (Finite b)) (Finite c))
                (fconst rounded 3) = Finite p \<and>
             \<bar>p - (a + b + c) / 3\<bar> \<le> 3 * float_roundoff * M + 2 * float_tiny"
proof -
  note h = float_tiny_range
  have M: "0 \<le> M"
    using assms(1) by linarith
  note top = assms(4)
  have "\<bar>a + b\<bar> \<le> 2 * M"
    using assms(1,2) by linarith
  with top have "\<bar>a + b\<bar> \<le> 7 * 2 powi 125"
    by simp
  from round_float32_close [OF this] obtain r1 where
    r1: "round_float32 (a + b) = Finite r1"
    and e1: "\<bar>r1 - (a + b)\<bar> \<le> \<bar>a + b\<bar> / 16777216 + float_tiny"
    by (auto simp add: float_roundoff_eq)
  note se = stage_error [OF assms(1-3) h(1) e1]
  from se(1) top h(2) have "\<bar>r1 + c\<bar> \<le> 7 * 2 powi 125"
    by simp
  from round_float32_close [OF this] obtain r2 where
    r2: "round_float32 (r1 + c) = Finite r2"
    and e2: "\<bar>r2 - (r1 + c)\<bar> \<le> \<bar>r1 + c\<bar> / 16777216 + float_tiny"
    by (auto simp add: float_roundoff_eq)
  from se(2) [OF e2] top h(2) have "\<bar>r2\<bar> \<le> 3 * (7 * 2 powi 125)"
    by simp
  then have "\<bar>r2 / 3\<bar> \<le> 7 * 2 powi 125"
    by simp
  from round_float32_close [OF this] obtain p where
    p: "round_float32 (r2 / 3) = Finite p"
    and e3: "\<bar>p - r2 / 3\<bar> \<le> \<bar>r2 / 3\<bar> / 16777216 + float_tiny"
    by (auto simp add: float_roundoff_eq)
  have "fdiv rounded (fadd rounded (fadd rounded (Finite a) (Finite b)) (Finite c))
          (fconst rounded 3) = Finite p"
    by (simp add: rounded_def round_float32_3 r1 r2 p)
  moreover have "\<bar>p - (a + b + c) / 3\<bar> \<le> 3 * float_roundoff * M + 2 * float_tiny"
    using se(3) [OF e2 e3] by (simp add: float_roundoff_eq)
  ultimately show ?thesis
    by blast
qed

lemma bounded_value:
  assumes "bounded M v"
  shows "v = Finite (value_of v)" and "\<bar>value_of v\<bar> \<le> M"
  using assms by (cases v; simp)+

lemma constant_blur_elems: "elems (input (constant_blur k)) n c x y = k"
  by (simp add: constant_blur_def)

lemma producer_near_average:
  assumes "in_bounds (get_output_buffer blur) n c x y"
    and "\<And>n c x y. in_bounds (input blur) n c x y \<Longrightarrow> bounded M (elems (input blur) n c x y)"
    and "M \<le> 2 powi 126 + 2 powi 104"
    and "0 \<le> j" "j \<le> 2"
  shows "\<exists>p. producer rounded blur n c x (y + j) = Some (Finite p) \<and>
             \<bar>p - 1 / 3 * (\<Sum>i\<in>{0, 1, 2}. value_of (elems (input blur) n c (x + i) (y + j)))\<bar>
               \<le> 3 * float_roundoff * M + 2 * float_tiny"
proof -
  define a where "a i = elems (input blur) n c (x + i) (y + j)" for i
  have b: "bounded M (a i)" if "0 \<le> i" "i \<le> 2" for i
    unfolding a_def using that assms(4,5) by (intro assms(2) in_bounds_output_taps [OF assms(1)])
  note v = bounded_value [OF b [of 0]] bounded_value [OF b [of 1]] bounded_value [OF b [of 2]]
  from float_average_close [OF v(2) v(4) v(6) assms(3)] obtain p where
    p: "fdiv rounded (fadd rounded (fadd rounded (Finite (value_of (a 0))) (Finite (value_of (a 1))))
          (Finite (value_of (a 2)))) (fconst rounded 3) = Finite p"
    and e: "\<bar>p - (value_of (a 0) + value_of (a 1) + value_of (a 2)) / 3\<bar>
          \<le> 3 * float_roundoff * M + 2 * float_tiny"
    by auto
  have "producer rounded blur n c x (y + j) =
      Some (fdiv rounded (fadd rounded (fadd rounded (a 0) (a 1)) (a 2)) (fconst rounded 3))"
    using producer_in_bounds [OF assms(1,4,5), of rounded] by (simp add: a_def)
  also have "\<dots> = Some (Finite p)"
    using v(1,3,5) p by simp
  finally have "producer rounded blur n c x (y + j) = Some (Finite p)" .
  moreover have "(\<Sum>i\<in>{0, 1, 2}. value_of (elems (input blur) n c (x + i) (y + j))) =
      value_of (a 0) + value_of (a 1) + value_of (a 2)"
    by (simp add: a_def)
  ultimately show ?thesis
    using e by simp
qed

text \<open>
  C1, as amended. The stages are those of \<^verbatim>\<open>Blur::Blur\<close> in the arithmetic of
  \<^verbatim>\<open>float\<close>. When every element of the input is a finite float of magnitude at most
  \<open>M\<close>, with \<open>M\<close> at most \<open>2 powi 126\<close>, then at every coordinate \<open>(n, c, x, y)\<close> of the
  output shape:

  \<^item> the producer stage at \<open>(n, c, x, y + j)\<close>, for \<open>j\<close> from 0 to 2, is a finite float
    within \<open>3 * 2 powi (- 24) * M + 2 * 2 powi (- 150)\<close> of a third of the sum of the
    three input elements at \<open>x\<close>, \<open>x + 1\<close>, \<open>x + 2\<close> of the third coordinate;

  \<^item> the consumer stage is a finite float within
    \<open>4 * 2 powi (- 24) * M + 3 * 2 powi (- 150)\<close> of a third of the sum of these three
    values of the producer, at \<open>y\<close>, \<open>y + 1\<close>, \<open>y + 2\<close> of the fourth coordinate;

  \<^item> the consumer stage is within \<open>7 * 2 powi (- 24) * M + 5 * 2 powi (- 150)\<close> of the
    reference value \<open>(1/3) \<Sum>\<^sub>j (1/3) \<Sum>\<^sub>i input(n, c, x + i, y + j)\<close>, with \<open>i\<close> and \<open>j\<close>
    from 0 to 2.

  The values that \<^verbatim>\<open>main\<close> stores in the input are those of \<^verbatim>\<open>rand()\<close>, of magnitude
  below \<open>2 powi 31\<close>.
\<close>

theorem consumer_near_reference:
  assumes "in_bounds (get_output_buffer blur) n c x y"
    and "\<And>n c x y. in_bounds (input blur) n c x y \<Longrightarrow> bounded M (elems (input blur) n c x y)"
    and "M \<le> 2 powi 126"
  shows "\<exists>p r.
     (\<forall>j\<in>{0, 1, 2}.
        producer rounded blur n c x (y + j) = Some (Finite (p j)) \<and>
        \<bar>p j - 1 / 3 * (\<Sum>i\<in>{0, 1, 2}. value_of (elems (input blur) n c (x + i) (y + j)))\<bar>
          \<le> 3 * float_roundoff * M + 2 * float_tiny) \<and>
     consumer rounded blur n c x y = Some (Finite r) \<and>
     \<bar>r - 1 / 3 * (\<Sum>j\<in>{0, 1, 2}. p j)\<bar> \<le> 4 * float_roundoff * M + 3 * float_tiny \<and>
     \<bar>r - 1 / 3 * (\<Sum>j\<in>{0, 1, 2}.
            1 / 3 * (\<Sum>i\<in>{0, 1, 2}. value_of (elems (input blur) n c (x + i) (y + j))))\<bar>
       \<le> 7 * float_roundoff * M + 5 * float_tiny"
proof -
  define P where
    "P j = 1 / 3 * (\<Sum>i\<in>{0, 1, 2}. value_of (elems (input blur) n c (x + i) (y + j)))" for j
  define M' where "M' = M + (3 * float_roundoff * M + 2 * float_tiny)"
  note h = float_tiny_range
  have M: "0 \<le> M"
    using bounded_value(2) [OF assms(2) [OF in_bounds_output_taps [OF assms(1), of 0 0]]]
    by simp
  have wide: "M \<le> 2 powi 126 + 2 powi 104"
    using assms(3) by simp
  have "\<exists>p. producer rounded blur n c x (y + j) = Some (Finite p) \<and>
             \<bar>p - P j\<bar> \<le> 3 * float_roundoff * M + 2 * float_tiny"
    if "0 \<le> j" "j \<le> 2" for j
    unfolding P_def using assms(1,2) wide that by (rule producer_near_average)
  from this [of 0] this [of 1] this [of 2] obtain p0 p1 p2 where
    p: "producer rounded blur n c x y = Some (Finite p0)"
       "producer rounded blur n c x (y + 1) = Some (Finite p1)"
       "producer rounded blur n c x (y + 2) = Some (Finite p2)"
    and e: "\<bar>p0 - P 0\<bar> \<le> 3 * float_roundoff * M + 2 * float_tiny"
       "\<bar>p1 - P 1\<bar> \<le> 3 * float_roundoff * M + 2 * float_tiny"
       "\<bar>p2 - P 2\<bar> \<le> 3 * float_roundoff * M + 2 * float_tiny"
    by auto
  have Pb: "\<bar>P j\<bar> \<le> M" if "0 \<le> j" "j \<le> 2" for j
  proof -
    have "\<bar>value_of (elems (input blur) n c (x + i) (y + j))\<bar> \<le> M" if "0 \<le> i" "i \<le> 2" for i
      using that \<open>0 \<le> j\<close> \<open>j \<le> 2\<close>
      by (intro bounded_value(2) assms(2) in_bounds_output_taps [OF assms(1)])
    from this [of 0] this [of 1] this [of 2] show ?thesis
      unfolding P_def by simp
  qed
  have pb: "\<bar>p0\<bar> \<le> M'" "\<bar>p1\<bar> \<le> M'" "\<bar>p2\<bar> \<le> M'"
    using e Pb [of 0] Pb [of 1] Pb [of 2] unfolding M'_def by linarith+
  have "M' \<le> 2 powi 126 + 2 powi 104"
    using assms(3) h(2) unfolding M'_def float_roundoff_eq by simp
  from float_average_close [OF pb this] obtain r where
    r: "fdiv rounded (fadd rounded (fadd rounded (Finite p0) (Finite p1)) (Finite p2))
          (fconst rounded 3) = Finite r"
    and er: "\<bar>r - (p0 + p1 + p2) / 3\<bar> \<le> 3 * float_roundoff * M' + 2 * float_tiny"
    by auto
  define q where "q j = (if j = 0 then p0 else if j = 1 then p1 else p2)" for j :: int
  have stages: "\<forall>j\<in>{0, 1, 2}.
        producer rounded blur n c x (y + j) = Some (Finite (q j)) \<and>
        \<bar>q j - P j\<bar> \<le> 3 * float_roundoff * M + 2 * float_tiny"
    using p e by (simp add: q_def)
  have cons: "consumer rounded blur n c x y = Some (Finite r)"
    using p r by (simp add: consumer_def)
  have sum: "(\<Sum>j\<in>{0, 1, 2}. q j) = p0 + p1 + p2"
    by (simp add: q_def)
  define d where "d = \<bar>r - (p0 + p1 + p2) / 3\<bar>"
  have "d \<le> 3 * (M + (3 * M / 16777216 + 2 * float_tiny)) / 16777216 + 2 * float_tiny"
    using er unfolding d_def M'_def float_roundoff_eq by simp
  with M h(1) have d: "d \<le> 4 * M / 16777216 + 3 * float_tiny"
    by (simp add: add_divide_distrib distrib_left)
  then have near: "\<bar>r - 1 / 3 * (\<Sum>j\<in>{0, 1, 2}. q j)\<bar> \<le> 4 * float_roundoff * M + 3 * float_tiny"
    unfolding sum d_def float_roundoff_eq by simp
  define d0 where "d0 = \<bar>p0 - P 0\<bar>"
  define d1 where "d1 = \<bar>p1 - P 1\<bar>"
  define d2 where "d2 = \<bar>p2 - P 2\<bar>"
  define w where "w = \<bar>(p0 + p1 + p2) - (P 0 + P 1 + P 2)\<bar>"
  define g where "g = \<bar>(p0 + p1 + p2) / 3 - (P 0 + P 1 + P 2) / 3\<bar>"
  define t where "t = \<bar>r - (P 0 + P 1 + P 2) / 3\<bar>"
  have "w \<le> d0 + d1 + d2"
    unfolding w_def d0_def d1_def d2_def by linarith
  moreover have "g = w / 3"
    unfolding g_def w_def by (simp add: diff_divide_distrib [symmetric])
  moreover have "t \<le> d + g"
    unfolding t_def d_def g_def by (rule abs_diff_triangle)
  moreover note d
  moreover have "d0 \<le> 3 * M / 16777216 + 2 * float_tiny" "d1 \<le> 3 * M / 16777216 + 2 * float_tiny"
    "d2 \<le> 3 * M / 16777216 + 2 * float_tiny"
    using e unfolding d0_def d1_def d2_def float_roundoff_eq by simp_all
  ultimately have "t \<le> 7 * M / 16777216 + 5 * float_tiny"
    by linarith
  then have "\<bar>r - (P 0 + P 1 + P 2) / 3\<bar> \<le> 7 * float_roundoff * M + 5 * float_tiny"
    unfolding t_def by (simp add: float_roundoff_eq)
  moreover have "1 / 3 * (\<Sum>j\<in>{0, 1, 2}. P j) = (P 0 + P 1 + P 2) / 3"
    by simp
  ultimately have far:
    "\<bar>r - 1 / 3 * (\<Sum>j\<in>{0, 1, 2}. P j)\<bar> \<le> 7 * float_roundoff * M + 5 * float_tiny"
    by (simp only:)
  from stages cons near far show ?thesis
    unfolding P_def by blast
qed

theorem consumer_near_reference_witness:
  "in_bounds (get_output_buffer float_ramp_blur) 31 7 255 255 \<and> (514::real) \<le> 2 powi 126 \<and>
   (\<exists>p r.
     (\<forall>j\<in>{0, 1, 2}.
        producer rounded float_ramp_blur 31 7 255 (255 + j) = Some (Finite (p j)) \<and>
        \<bar>p j - 1 / 3 * (\<Sum>i\<in>{0, 1, 2}.
               value_of (elems (input float_ramp_blur) 31 7 (255 + i) (255 + j)))\<bar>
          \<le> 3 * float_roundoff * 514 + 2 * float_tiny) \<and>
     consumer rounded float_ramp_blur 31 7 255 255 = Some (Finite r) \<and>
     \<bar>r - 1 / 3 * (\<Sum>j\<in>{0, 1, 2}. p j)\<bar> \<le> 4 * float_roundoff * 514 + 3 * float_tiny \<and>
     \<bar>r - 1 / 3 * (\<Sum>j\<in>{0, 1, 2}.
            1 / 3 * (\<Sum>i\<in>{0, 1, 2}.
               value_of (elems (input float_ramp_blur) 31 7 (255 + i) (255 + j))))\<bar>
       \<le> 7 * float_roundoff * 514 + 5 * float_tiny)"
proof (intro conjI)
  show inb: "in_bounds (get_output_buffer float_ramp_blur) 31 7 255 255"
    by (simp add: in_bounds_def get_output_buffer_def float_ramp_blur_def)
  show top: "(514::real) \<le> 2 powi 126"
    by simp
  show "\<exists>p r.
     (\<forall>j\<in>{0, 1, 2}.
        producer rounded float_ramp_blur 31 7 255 (255 + j) = Some (Finite (p j)) \<and>
        \<bar>p j - 1 / 3 * (\<Sum>i\<in>{0, 1, 2}.
               value_of (elems (input float_ramp_blur) 31 7 (255 + i) (255 + j)))\<bar>
          \<le> 3 * float_roundoff * 514 + 2 * float_tiny) \<and>
     consumer rounded float_ramp_blur 31 7 255 255 = Some (Finite r) \<and>
     \<bar>r - 1 / 3 * (\<Sum>j\<in>{0, 1, 2}. p j)\<bar> \<le> 4 * float_roundoff * 514 + 3 * float_tiny \<and>
     \<bar>r - 1 / 3 * (\<Sum>j\<in>{0, 1, 2}.
            1 / 3 * (\<Sum>i\<in>{0, 1, 2}.
               value_of (elems (input float_ramp_blur) 31 7 (255 + i) (255 + j))))\<bar>
       \<le> 7 * float_roundoff * 514 + 5 * float_tiny"
    by (rule consumer_near_reference [OF inb _ top])
      (simp add: in_bounds_def float_ramp_blur_def)
qed

text \<open>
  The specification asks for the reference value itself, for every input. On the
  constant input 11184826 the sum of three elements, 33554478, lies halfway between two
  floats and rounds to 33554480, a third of which rounds to 11184827; the producer is
  11184827 everywhere and so is the consumer, while the reference value is 11184826.
  On the constant input \<open>2 powi 127\<close>, a finite float, the first addition overflows
  and the consumer is \<open>+\<infinity>\<close>.
\<close>

theorem consumer_off_reference_counterexample:
  "consumer rounded (constant_blur (Finite 11184826)) 0 0 0 0 = Some (Finite 11184827) \<and>
   1 / 3 * (\<Sum>j\<in>{0, 1, 2}.
      1 / 3 * (\<Sum>i\<in>{0, 1, 2}.
         value_of (elems (input (constant_blur (Finite 11184826))) 0 0 (0 + i) (0 + j)))) =
     11184826 \<and>
   consumer rounded (constant_blur (Finite (2 powi 127))) 0 0 0 0 = Some PlusInfinity"
proof (intro conjI)
  show "consumer rounded (constant_blur (Finite 11184826)) 0 0 0 0 = Some (Finite 11184827)"
    by (simp only: consumer_in_bounds [OF constant_blur_in_bounds(1)] constant_blur_elems
        rounded_average_11184826 rounded_average_11184827)
  show "1 / 3 * (\<Sum>j\<in>{0, 1, 2}.
      1 / 3 * (\<Sum>i\<in>{0, 1, 2}.
         value_of (elems (input (constant_blur (Finite 11184826))) 0 0 (0 + i) (0 + j)))) =
     11184826"
    by (simp add: constant_blur_elems)
  show "consumer rounded (constant_blur (Finite (2 powi 127))) 0 0 0 0 = Some PlusInfinity"
    by (simp only: consumer_in_bounds [OF constant_blur_in_bounds(1)] constant_blur_elems
        rounded_average_overflow rounded_average_infinity)
qed

section \<open>A constant input\<close>

lemma exact_average_of_constant:
  "fdiv exact (fadd exact (fadd exact k k) k) (fconst exact 3) = k"
  by (simp add: exact_def)

text \<open>
  C8, as amended. When every element of the input is \<open>k\<close> and the element arithmetic
  gives \<open>(k + k + k) / 3 = k\<close>, the consumer stage is \<open>k\<close> at every coordinate of the
  output shape. Exact arithmetic gives \<open>(k + k + k) / 3 = k\<close> for every \<open>k\<close>
  (\<open>exact_average_of_constant\<close>), and the arithmetic of \<^verbatim>\<open>float\<close> for every integer
  \<open>k\<close> from \<open>-5592405\<close> to \<open>5592405\<close> (\<open>rounded_average_of_int\<close>).
\<close>

theorem constant_input_fixed:
  assumes "in_bounds (get_output_buffer blur) n c x y"
    and "\<And>n c x y. in_bounds (input blur) n c x y \<Longrightarrow> elems (input blur) n c x y = k"
    and "fdiv A (fadd A (fadd A k k) k) (fconst A 3) = k"
  shows "consumer A blur n c x y = Some k"
proof -
  have "elems (input blur) n c (x + i) (y + j) = k"
    if "0 \<le> i" "i \<le> 2" "0 \<le> j" "j \<le> 2" for i j
    using that assms(1,2) by (intro assms(2) in_bounds_output_taps)
  from this [of 0 0] this [of 1 0] this [of 2 0] this [of 0 1] this [of 1 1] this [of 2 1]
    this [of 0 2] this [of 1 2] this [of 2 2]
  show ?thesis
    by (simp add: consumer_in_bounds [OF assms(1)] assms(3))
qed

theorem constant_input_fixed_witness:
  "in_bounds (get_output_buffer (constant_blur (7::real))) 31 7 255 255 \<and>
   fdiv exact (fadd exact (fadd exact 7 7) 7) (fconst exact 3) = 7 \<and>
   consumer exact (constant_blur 7) 31 7 255 255 = Some 7 \<and>
   fdiv rounded (fadd rounded (fadd rounded (Finite 3) (Finite 3)) (Finite 3)) (fconst rounded 3) =
     Finite 3 \<and>
   consumer rounded (constant_blur (Finite 3)) 31 7 255 255 = Some (Finite 3)"
proof -
  have e: "fdiv exact (fadd exact (fadd exact 7 7) 7) (fconst exact 3) = 7"
    by (simp add: exact_def)
  have "consumer exact (constant_blur 7) 31 7 255 255 = Some 7"
    by (rule constant_input_fixed [OF constant_blur_in_bounds(2) _ e])
      (simp add: constant_blur_def)
  moreover have "consumer rounded (constant_blur (Finite 3)) 31 7 255 255 = Some (Finite 3)"
    by (rule constant_input_fixed [OF constant_blur_in_bounds(2) _ rounded_average_3])
      (simp add: constant_blur_def)
  ultimately show ?thesis
    by (simp add: constant_blur_in_bounds e rounded_average_3)
qed

text \<open>
  The specification asks for exactly \<open>k\<close> for every \<open>k\<close>, in the arithmetic of
  \<^verbatim>\<open>float\<close>. With \<open>k = 11184818\<close> the sum \<open>k + k + k = 33554454\<close> lies halfway between two floats
  and rounds to 33554456, a third of which rounds to 11184819: every output element is
  \<open>k + 1\<close>. (A multiplication by the float nearest to \<open>1/3\<close> in place of the division
  gives 11184819 as well, \<open>round_float32_reciprocal\<close>.)
\<close>

theorem constant_input_counterexample:
  "consumer rounded (constant_blur (Finite 11184818)) 0 0 0 0 = Some (Finite 11184819)"
  by (simp add: consumer_in_bounds [OF constant_blur_in_bounds(1)])
    (simp add: constant_blur_def rounded_average_11184818 rounded_average_11184819)

section \<open>Reads of the input stay inside it\<close>

text \<open>
  C10. For every output coordinate inside the shape that \<open>get_output_buffer\<close> gives,
  each of the nine reads \<open>input(n, c, x+i, y+j)\<close>, \<open>i, j \<in> {0, 1, 2}\<close>, that the two
  stages make is inside the input buffer, and so the evaluation of the consumer stage
  at that coordinate reads nothing outside the input and yields a value.
\<close>

theorem stage_reads_in_bounds:
  assumes "in_bounds (get_output_buffer blur) n c x y"
  shows "(\<forall>i\<in>{0, 1, 2}. \<forall>j\<in>{0, 1, 2}.
            in_bounds (input blur) n c (x + i) (y + j) \<and>
            buffer_at (input blur) n c (x + i) (y + j) \<noteq> None) \<and>
         (\<forall>j\<in>{0, 1, 2}. producer A blur n c x (y + j) \<noteq> None) \<and>
         consumer A blur n c x y \<noteq> None"
proof -
  have taps: "in_bounds (input blur) n c (x + i) (y + j)"
    if "i \<in> {0, 1, 2}" "j \<in> {0, 1, 2}" for i j :: int
    using that assms by (intro in_bounds_output_taps) auto
  have prod: "producer A blur n c x (y + j) \<noteq> None" if "j \<in> {0, 1, 2}" for j :: int
    using that producer_in_bounds [OF assms, of j A] by auto
  have "consumer A blur n c x y \<noteq> None"
    using producer_in_bounds [OF assms, of 0 A] producer_in_bounds [OF assms, of 1 A]
      producer_in_bounds [OF assms, of 2 A]
    by (simp add: consumer_def)
  with taps prod show ?thesis
    by (simp add: buffer_at_def)
qed

text \<open>
  The last coordinate of the output of \<^verbatim>\<open>main\<close>'s input reads the last element of the
  input, \<open>(31, 7, 257, 257)\<close>.
\<close>

theorem stage_reads_in_bounds_witness:
  "in_bounds (get_output_buffer ramp_blur) 31 7 255 255 \<and>
   in_bounds (input ramp_blur) 31 7 257 257 \<and>
   consumer exact ramp_blur 31 7 255 255 \<noteq> None"
  using stage_reads_in_bounds [of ramp_blur 31 7 255 255 exact]
  by (simp add: in_bounds_def get_output_buffer_def ramp_blur_def)

section \<open>The argument count\<close>

text \<open>
  C7. With two or more command-line arguments (an argument vector of three or more
  entries, the program's name included) \<^verbatim>\<open>main\<close> writes the usage line to standard
  error and returns 1; that line is the only event of the run, so no buffer is allocated
  and nothing is scheduled or compiled.
\<close>

theorem main_usage:
  assumes "3 \<le> length argv"
  shows "main A env argv = ([FprintfStderr ''Usage: .//relu_gpu [autoscheduler]\<newline>''], 1) \<and>
         filter is_allocation (fst (main A env argv)) = [] \<and>
         filter is_scheduling (fst (main A env argv)) = [] \<and>
         filter is_compilation (fst (main A env argv)) = []"
  using assms by (simp add: main_def Let_def)

theorem main_usage_witness:
  "3 \<le> length [''blur'', ''Li2018'', ''extra''] \<and>
   main exact linux_cuda [''blur'', ''Li2018'', ''extra''] =
     ([FprintfStderr ''Usage: .//relu_gpu [autoscheduler]\<newline>''], 1)"
  using main_usage [of "[''blur'', ''Li2018'', ''extra'']" exact linux_cuda]
  by simp

section \<open>The result of the scheduling step\<close>

text \<open>
  C2. With zero or one argument, the events of \<^verbatim>\<open>schedule_for_gpu\<close> are followed by
  the line \<^verbatim>\<open>Testing performance on GPU:\<close> and the events of
  \<^verbatim>\<open>test_performance\<close> with 100 runs, whatever boolean the scheduling step returned.
  When it returned false, the run holds no scheduling and no compilation event, and
  still realizes the pipeline 101 times (the warm-up and the 100 timed runs).
\<close>

theorem main_ignores_schedule_result:
  assumes "length argv = 1 \<or> length argv = 2"
  shows "(\<exists>before. main A env argv =
            (before @ fst (schedule_for_gpu env (blur_layer A env argv)) @
             Printf ''Testing performance on GPU:\<newline>'' [] #
             test_performance env (blur_layer A env argv) 100, 0)) \<and>
         (snd (schedule_for_gpu env (blur_layer A env argv)) = False \<longrightarrow>
            filter is_scheduling (fst (main A env argv)) = [] \<and>
            filter is_compilation (fst (main A env argv)) = [] \<and>
            filter is_realize (fst (main A env argv)) =
              replicate 101 (Realize (realized (blur_layer A env argv))
                \<lparr>extent0 = 32, extent1 = 8, extent2 = 256, extent3 = 256\<rparr>))"
proof -
  let ?blur = "blur_layer A env argv"
  have out: "get_output_buffer ?blur = \<lparr>extent0 = 32, extent1 = 8, extent2 = 256, extent3 = 256\<rparr>"
    by (simp add: get_output_buffer_def blur_layer_def random_input_def batch_size_def
        channels_in_def height_def width_def)
  have run: "main A env argv =
     ((announcement argv @
      [Printf ''Generating input with dimensions: batch_size: %d, height: %d, width: %d, channels: %d\<newline>''
         [AInt 32, AInt 258, AInt 258, AInt 8],
       NewBuffer \<lparr>extent0 = 32, extent1 = 8, extent2 = 258, extent3 = 258\<rparr>,
       Printf ''Running pipeline on GPU:\<newline>'' []]) @
      fst (schedule_for_gpu env ?blur) @
      Printf ''Testing performance on GPU:\<newline>'' [] #
      test_performance env ?blur 100,
      0)"
    using main_run [OF assms, of A env] by simp
  have first: "\<exists>before. main A env argv =
            (before @ fst (schedule_for_gpu env ?blur) @
             Printf ''Testing performance on GPU:\<newline>'' [] #
             test_performance env ?blur 100, 0)"
    using run by blast
  have second: "filter is_scheduling (fst (main A env argv)) = [] \<and>
            filter is_compilation (fst (main A env argv)) = [] \<and>
            filter is_realize (fst (main A env argv)) =
              replicate 101 (Realize (realized ?blur)
                \<lparr>extent0 = 32, extent1 = 8, extent2 = 256, extent3 = 256\<rparr>)"
    if failed: "snd (schedule_for_gpu env ?blur) = False"
  proof -
    have "\<not> has_gpu_feature (snd (find_gpu_target env))"
      using failed by (auto simp add: schedule_for_gpu_def case_prod_beta split: if_splits)
    then have sched: "fst (schedule_for_gpu env ?blur) = fst (find_gpu_target env)"
      by (simp add: schedule_for_gpu_failed)
    show ?thesis
      by (simp add: run sched announcement_def find_gpu_target_events
          test_performance_no_setup test_performance_realizes out)
  qed
  from first second show ?thesis
    by blast
qed

theorem main_ignores_schedule_result_witness:
  "(length [''blur''] = 1 \<or> length [''blur''] = 2) \<and>
   schedule_for_gpu linux_no_gpu (blur_layer exact linux_no_gpu [''blur'']) =
     ([Printf ''Requested GPU(s) are not supported. (Do you have the proper hardware and/or driver installed?)\<newline>'' []],
      False) \<and>
   filter is_compilation (fst (main exact linux_no_gpu [''blur''])) = [] \<and>
   filter is_realize (fst (main exact linux_no_gpu [''blur''])) =
     replicate 101 (Realize ConsumerFunc \<lparr>extent0 = 32, extent1 = 8, extent2 = 256, extent3 = 256\<rparr>)"
  using main_ignores_schedule_result [of "[''blur'']" exact linux_no_gpu]
  by (simp add: schedule_for_gpu_def find_gpu_target_eq linux_no_gpu_def has_gpu_feature_def
      has_feature_def blur_layer_def realized_def)

section \<open>The shape of the output buffer\<close>

text \<open>
  C3. For an input of extents (batch, channels, height, width) and any scheduler string,
  \<open>get_output_buffer\<close> gives the extents (batch, channels, height - 2, width - 2); the
  one buffer that \<^verbatim>\<open>test_performance\<close> allocates has this shape, and every call of
  \<^verbatim>\<open>realize\<close> is on it, on the manual path and on the automatic one.
\<close>

theorem output_buffer_shape:
  "get_output_buffer \<lparr>input = inp, scheduler = name\<rparr> =
     \<lparr>extent0 = extent0 inp, extent1 = extent1 inp,
      extent2 = extent2 inp - 2, extent3 = extent3 inp - 2\<rparr> \<and>
   filter is_allocation (test_performance env \<lparr>input = inp, scheduler = name\<rparr> num_runs) =
     [NewBuffer \<lparr>extent0 = extent0 inp, extent1 = extent1 inp,
                 extent2 = extent2 inp - 2, extent3 = extent3 inp - 2\<rparr>] \<and>
   filter is_realize (test_performance env \<lparr>input = inp, scheduler = name\<rparr> num_runs) =
     replicate (Suc (nat num_runs))
       (Realize (if name = [] then ConsumerFunc else AutoBlur)
          \<lparr>extent0 = extent0 inp, extent1 = extent1 inp,
           extent2 = extent2 inp - 2, extent3 = extent3 inp - 2\<rparr>)"
  by (simp add: test_performance_allocates test_performance_realizes realized_def)
     (simp add: get_output_buffer_def)

theorem output_buffer_shape_witness:
  "get_output_buffer \<lparr>input = random_input exact linux_cuda, scheduler = ''Li2018''\<rparr> =
     \<lparr>extent0 = 32, extent1 = 8, extent2 = 256, extent3 = 256\<rparr> \<and>
   get_output_buffer \<lparr>input = random_input exact linux_cuda, scheduler = []\<rparr> =
     \<lparr>extent0 = 32, extent1 = 8, extent2 = 256, extent3 = 256\<rparr> \<and>
   filter is_allocation
     (test_performance linux_cuda \<lparr>input = random_input exact linux_cuda, scheduler = ''Li2018''\<rparr> 100) =
     [NewBuffer \<lparr>extent0 = 32, extent1 = 8, extent2 = 256, extent3 = 256\<rparr>]"
  using output_buffer_shape [of "random_input exact linux_cuda" "''Li2018''" linux_cuda 100]
    output_buffer_shape [of "random_input exact linux_cuda" "[]" linux_cuda 100]
  by (simp add: random_input_def batch_size_def channels_in_def height_def width_def)

section \<open>The target resolver\<close>

text \<open>
  C4. \<open>find_gpu_target\<close> tries one candidate, Metal when the host's OS is OS X and CUDA
  otherwise, and returns the host's target with that feature when the host supports it;
  when it does not, it prints its message and returns the host's target unchanged. If
  that target has no GPU feature, \<^verbatim>\<open>schedule_for_gpu\<close> then returns false, and its
  only event is the resolver's message: neither scheduling path is entered.
\<close>

theorem find_gpu_target_fallback:
  "find_gpu_target env =
     (let host = get_host_target env;
          candidate = (if os host = OSX then Metal else CUDA) in
      if host_supports_target_device env (with_feature host candidate)
      then ([], with_feature host candidate)
      else ([Printf ''Requested GPU(s) are not supported. (Do you have the proper hardware and/or driver installed?)\<newline>'' []],
            host)) \<and>
   (\<not> host_supports_target_device env
        (with_feature (get_host_target env)
           (if os (get_host_target env) = OSX then Metal else CUDA)) \<and>
    \<not> has_gpu_feature (get_host_target env) \<longrightarrow>
      snd (find_gpu_target env) = get_host_target env \<and>
      schedule_for_gpu env blur =
        ([Printf ''Requested GPU(s) are not supported. (Do you have the proper hardware and/or driver installed?)\<newline>'' []],
         False))"
  by (simp add: find_gpu_target_eq schedule_for_gpu_def Let_def)

theorem find_gpu_target_fallback_witness:
  "\<not> host_supports_target_device linux_no_gpu (with_feature (get_host_target linux_no_gpu) CUDA) \<and>
   \<not> has_gpu_feature (get_host_target linux_no_gpu) \<and>
   find_gpu_target linux_no_gpu =
     ([Printf ''Requested GPU(s) are not supported. (Do you have the proper hardware and/or driver installed?)\<newline>'' []],
      \<lparr>os = Linux, features = {HostFeature 0}\<rparr>) \<and>
   schedule_for_gpu linux_no_gpu ramp_blur =
     ([Printf ''Requested GPU(s) are not supported. (Do you have the proper hardware and/or driver installed?)\<newline>'' []],
      False) \<and>
   find_gpu_target linux_cuda = ([], \<lparr>os = Linux, features = {CUDA, HostFeature 0}\<rparr>) \<and>
   find_gpu_target osx_metal = ([], \<lparr>os = OSX, features = {Metal, HostFeature 0}\<rparr>)"
  using find_gpu_target_fallback [of linux_no_gpu ramp_blur]
    find_gpu_target_fallback [of linux_cuda ramp_blur]
    find_gpu_target_fallback [of osx_metal ramp_blur]
  by (simp add: linux_no_gpu_def linux_cuda_def osx_metal_def has_gpu_feature_def
      has_feature_def with_feature_def Let_def)

section \<open>The manual path on a GPU target without CUDA\<close>

text \<open>
  C9. On the manual path (empty scheduler string), when the resolved target has a GPU
  feature and not CUDA, \<^verbatim>\<open>schedule_for_gpu\<close> applies no scheduling directive to either
  stage: after the resolver's events it prints the target, compiles \<^verbatim>\<open>consumer\<close> for
  the resolved target and returns true.
\<close>

theorem manual_schedule_skipped_without_cuda:
  assumes "scheduler blur = []"
    and "has_gpu_feature (snd (find_gpu_target env))"
    and "\<not> has_feature (snd (find_gpu_target env)) CUDA"
  shows "schedule_for_gpu env blur =
           (fst (find_gpu_target env) @
            [Printf ''Target: %s\<newline>'' [ATarget (snd (find_gpu_target env))],
             CompileJit ConsumerFunc (snd (find_gpu_target env))],
            True) \<and>
         filter is_scheduling (fst (schedule_for_gpu env blur)) = [] \<and>
         filter is_compilation (fst (schedule_for_gpu env blur)) =
           [CompileJit ConsumerFunc (snd (find_gpu_target env))]"
  using assms find_gpu_target_events [of env]
  by (simp add: schedule_for_gpu_def case_prod_beta)

theorem manual_schedule_skipped_without_cuda_witness:
  "scheduler ramp_blur = [] \<and>
   has_gpu_feature (snd (find_gpu_target osx_metal)) \<and>
   \<not> has_feature (snd (find_gpu_target osx_metal)) CUDA \<and>
   schedule_for_gpu osx_metal ramp_blur =
     ([Printf ''Target: %s\<newline>'' [ATarget \<lparr>os = OSX, features = {Metal, HostFeature 0}\<rparr>],
       CompileJit ConsumerFunc \<lparr>os = OSX, features = {Metal, HostFeature 0}\<rparr>],
      True)"
  using manual_schedule_skipped_without_cuda [of ramp_blur osx_metal]
  by (simp add: find_gpu_target_eq osx_metal_def has_gpu_feature_def has_feature_def
      with_feature_def ramp_blur_def Let_def)

text \<open>
  On a Linux host that supports CUDA the same call applies the six directives of the
  manual schedule before it compiles.
\<close>

lemma schedule_for_gpu_cuda:
  "schedule_for_gpu linux_cuda ramp_blur =
     (manual_cuda_schedule @
      [Printf ''Target: %s\<newline>'' [ATarget \<lparr>os = Linux, features = {CUDA, HostFeature 0}\<rparr>],
       CompileJit ConsumerFunc \<lparr>os = Linux, features = {CUDA, HostFeature 0}\<rparr>],
      True)"
  by (simp add: schedule_for_gpu_def find_gpu_target_eq linux_cuda_def linux_no_gpu_def
      has_gpu_feature_def has_feature_def with_feature_def ramp_blur_def Let_def)

section \<open>The reported latencies\<close>

text \<open>
  One iteration of the timing loop keeps the relation between the two accumulators, and
  so does the loop; the elapsed time of an iteration is the rounded difference of two
  readings, non-negative when the clock has not run backwards.
\<close>

lemma lower_step:
  fixes b b' r T w h :: real and k :: nat
  assumes "0 \<le> b'" and "b' \<le> b" and "b' \<le> r"
    and "0 \<le> w" and "w \<le> 1" and "0 \<le> h"
    and "real k * b * w ^ k - real k * h \<le> T"
  shows "real (Suc k) * b' * w ^ Suc k - real (Suc k) * h \<le> (T + r) * w - h"
proof -
  have wk: "0 \<le> w ^ k" "w ^ k \<le> 1"
    using assms(4,5) by (simp_all add: power_le_one)
  have "real k * b' * w ^ k \<le> real k * b * w ^ k"
    using assms(2) wk(1) by (intro mult_right_mono mult_left_mono) simp_all
  moreover have "b' * w ^ k \<le> b' * 1"
    using assms(1) wk(2) by (intro mult_left_mono) simp_all
  ultimately have "real (Suc k) * b' * w ^ k - real k * h \<le> T + r"
    using assms(3,7) by (simp add: algebra_simps)
  then have "(real (Suc k) * b' * w ^ k - real k * h) * w \<le> (T + r) * w"
    using assms(4) by (intro mult_right_mono) simp_all
  moreover have "real k * h * w \<le> real k * h * 1"
    using assms(5,6) by (intro mult_left_mono) simp_all
  ultimately show ?thesis
    by (simp add: algebra_simps)
qed

lemma timing_body_inv:
  assumes clock: "current_time env = (\<lambda>k. Finite (t k))" and "mono t"
    and "0 \<le> i" and "timing_inv i s"
  shows "timing_inv (i + 1) (timing_body env p out i s)"
proof -
  define d where "d = t (clock_calls s + 1) - t (clock_calls s)"
  define elapsed where "elapsed = round_double d"
  have "0 \<le> d"
    using \<open>mono t\<close> by (simp add: d_def mono_def)
  then have el: "non_negative elapsed"
    using round_double_lower [of d] by (simp add: elapsed_def)
  have body: "timing_body env p out i s =
      \<lparr>total_time = ieee_add binary64 (total_time s) elapsed,
       best_time = (if i = 0 \<or> ieee_less elapsed (best_time s) then elapsed else best_time s),
       clock_calls = clock_calls s + 2,
       trace = trace s @ [Realize p out, DeviceSync]\<rparr>"
    by (simp add: timing_body_def clock elapsed_def d_def Let_def)
  note w = double_constants(1-3)
  show ?thesis
  proof (cases "i = 0")
    case True
    with assms(4) have tot: "total_time s = Finite 0"
      by (simp add: timing_inv_def)
    show ?thesis
    proof (cases elapsed)
      case (Finite r)
      with el have "0 \<le> r" by simp
      from round_double_lower [OF this] this Finite True tot body show ?thesis
        by (simp add: timing_inv_def)
    qed (use el True tot body in \<open>simp_all add: timing_inv_def\<close>)
  next
    case False
    with assms(3) have pos: "0 < i" by simp
    define k where "k = nat i"
    have k: "real_of_int i = real k" "nat (i + 1) = Suc k" "real_of_int (i + 1) = real (Suc k)"
      using pos by (simp_all add: k_def)
    from assms(4) False consider
      (inf) "best_time s = PlusInfinity" "total_time s = PlusInfinity"
      | (fin) b where "best_time s = Finite b" "0 \<le> b" "non_negative (total_time s)"
          "at_least (total_time s) (real k * b * (1 - double_roundoff) ^ k - real k * double_tiny)"
      unfolding timing_inv_def k(1) k_def [symmetric] by (auto split: ieee.splits)
    then show ?thesis
    proof cases
      case inf
      show ?thesis
      proof (cases elapsed)
        case (Finite r)
        with el have "0 \<le> r" by simp
        with Finite inf False pos body show ?thesis
          by (simp add: timing_inv_def)
      qed (use el inf False pos body in \<open>simp_all add: timing_inv_def\<close>)
    next
      case fin
      show ?thesis
      proof (cases elapsed)
        case (Finite r)
        with el have r: "0 \<le> r" by simp
        define b' where "b' = (if r < b then r else b)"
        have b': "0 \<le> b'" "b' \<le> b" "b' \<le> r"
          using r fin(2) by (simp_all add: b'_def)
        have best: "best_time (timing_body env p out i s) = Finite b'"
          using Finite fin(1) False by (simp add: body b'_def)
        show ?thesis
        proof (cases "total_time s")
          case (Finite T)
          with fin(3,4) have T: "0 \<le> T"
            "real k * b * (1 - double_roundoff) ^ k - real k * double_tiny \<le> T"
            by simp_all
          have "0 \<le> T + r"
            using T(1) r by simp
          from round_double_lower [OF this]
          have "non_negative (round_double (T + r))"
            and "at_least (round_double (T + r))
                   ((T + r) * (1 - double_roundoff) - double_tiny)"
            by simp_all
          moreover have "real (Suc k) * b' * (1 - double_roundoff) ^ Suc k -
                real (Suc k) * double_tiny
              \<le> (T + r) * (1 - double_roundoff) - double_tiny"
            by (rule lower_step [OF b' w T(2)])
          ultimately have "non_negative (round_double (T + r))"
            and "at_least (round_double (T + r))
                   (real (Suc k) * b' * (1 - double_roundoff) ^ Suc k -
                    real (Suc k) * double_tiny)"
            by (blast intro: at_least_mono)+
          moreover have "total_time (timing_body env p out i s) = round_double (T + r)"
            using Finite \<open>elapsed = Finite r\<close> by (simp add: body)
          ultimately show ?thesis
            using best pos b'(1) unfolding timing_inv_def k(2,3) by simp
        next
          case PlusInfinity
          then have "total_time (timing_body env p out i s) = PlusInfinity"
            using \<open>elapsed = Finite r\<close> by (simp add: body)
          then show ?thesis
            using best pos b'(1) unfolding timing_inv_def by simp
        qed (use fin(3) in simp_all)
      next
        case PlusInfinity
        have "best_time (timing_body env p out i s) = Finite b"
          using PlusInfinity fin(1) False by (simp add: body)
        moreover have "total_time (timing_body env p out i s) = PlusInfinity"
          using PlusInfinity fin(3) by (cases "total_time s") (simp_all add: body)
        ultimately show ?thesis
          using pos fin(2) unfolding timing_inv_def by simp
      qed (use el in simp_all)
    qed
  qed
qed

lemma timing_loop_inv:
  "current_time env = (\<lambda>k. Finite (t k)) \<Longrightarrow> mono t \<Longrightarrow> 0 \<le> i \<Longrightarrow> i \<le> num_runs \<Longrightarrow>
   timing_inv i s \<Longrightarrow> timing_inv num_runs (timing_loop env p out num_runs i s)"
proof (induction env p out num_runs i s rule: timing_loop.induct)
  case (1 env p out num_runs i s)
  show ?case
  proof (cases "i < num_runs")
    case True
    have "timing_inv (i + 1) (timing_body env p out i s)"
      using 1(2,3,4,6) by (intro timing_body_inv) simp_all
    with 1 True show ?thesis
      by (subst timing_loop.simps) simp
  next
    case False
    with 1 show ?thesis
      by (subst timing_loop.simps) simp
  qed
qed

text \<open>
  The division by the run count rounds once more. Bernoulli's inequality turns the
  \<open>num_runs + 1\<close> roundings into one allowance.
\<close>

lemma bernoulli_lower:
  fixes b u h :: real
  assumes "0 \<le> b" and "0 \<le> u" and "u \<le> 1" and "0 \<le> h"
  shows "b - b * real (Suc k) * u - 2 * h \<le> (b * (1 - u) ^ k - h) * (1 - u) - h"
proof -
  have "1 + real (Suc k) * (- u) \<le> (1 + (- u)) ^ Suc k"
    using assms(3) by (intro Bernoulli_inequality) simp
  then have "b * (1 - real (Suc k) * u) \<le> b * (1 - u) ^ Suc k"
    using assms(1) by (intro mult_left_mono) simp_all
  moreover have "h * (1 - u) \<le> h * 1"
    using assms(2,4) by (intro mult_left_mono) simp_all
  ultimately show ?thesis
    by (simp add: algebra_simps)
qed

lemma average_lower:
  assumes "1 \<le> num_runs" and "num_runs \<le> 2147483647" and "timing_inv num_runs s"
  shows "non_negative (best_time s) \<and> non_negative (average (total_time s) num_runs) \<and>
         (case best_time s of
            Finite b \<Rightarrow>
              at_least (average (total_time s) num_runs)
                (b - b * (real_of_int num_runs + 1) * double_roundoff - 2 * double_tiny)
          | _ \<Rightarrow> average (total_time s) num_runs = PlusInfinity)"
proof -
  define k where "k = nat num_runs"
  have k: "real_of_int num_runs = real k" "0 < k"
    using assms(1) by (simp_all add: k_def)
  have "\<bar>num_runs\<bar> < 2 ^ 53"
    using assms(1,2) by simp
  then have n: "round_double (real_of_int num_runs) = Finite (real k)"
    using round_double_of_int [of num_runs] k(1) by simp
  from assms(1,3) consider
    (inf) "best_time s = PlusInfinity" "total_time s = PlusInfinity"
    | (fin) b where "best_time s = Finite b" "0 \<le> b" "non_negative (total_time s)"
        "at_least (total_time s) (real k * b * (1 - double_roundoff) ^ k - real k * double_tiny)"
    unfolding timing_inv_def k(1) k_def [symmetric] by (auto split: ieee.splits)
  then show ?thesis
  proof cases
    case inf
    then show ?thesis
      using k(2) by (simp add: average_def n)
  next
    case fin
    show ?thesis
    proof (cases "total_time s")
      case (Finite T)
      with fin(3,4) have T: "0 \<le> T"
        "real k * b * (1 - double_roundoff) ^ k - real k * double_tiny \<le> T"
        by simp_all
      have avg: "average (total_time s) num_runs = round_double (T / real k)"
        using Finite k(2) by (simp add: average_def n)
      have "0 \<le> T / real k"
        using T(1) by simp
      from round_double_lower [OF this]
      have nn: "non_negative (round_double (T / real k))"
        and low: "at_least (round_double (T / real k))
               (T / real k * (1 - double_roundoff) - double_tiny)"
        by simp_all
      have "(real k * b * (1 - double_roundoff) ^ k - real k * double_tiny) / real k
              \<le> T / real k"
        using T(2) k(2) by (intro divide_right_mono) simp_all
      moreover have "(real k * b * (1 - double_roundoff) ^ k - real k * double_tiny) / real k
              = b * (1 - double_roundoff) ^ k - double_tiny"
        using k(2) by (simp add: diff_divide_distrib)
      ultimately have "b * (1 - double_roundoff) ^ k - double_tiny \<le> T / real k"
        by simp
      then have "(b * (1 - double_roundoff) ^ k - double_tiny) * (1 - double_roundoff)
              \<le> T / real k * (1 - double_roundoff)"
        using double_constants(1) by (intro mult_right_mono) simp_all
      moreover have "b - b * real (Suc k) * double_roundoff - 2 * double_tiny
              \<le> (b * (1 - double_roundoff) ^ k - double_tiny) * (1 - double_roundoff) - double_tiny"
        using fin(2) double_constants by (intro bernoulli_lower) simp_all
      ultimately have "b - b * (real k + 1) * double_roundoff - 2 * double_tiny
              \<le> T / real k * (1 - double_roundoff) - double_tiny"
        by (simp add: add.commute)
      with low have "at_least (round_double (T / real k))
               (b - b * (real k + 1) * double_roundoff - 2 * double_tiny)"
        by (rule at_least_mono)
      with nn fin(1,2) avg show ?thesis
        by (simp add: k(1))
    next
      case PlusInfinity
      then show ?thesis
        using fin(1,2) k(2) by (simp add: average_def n)
    qed (use fin(3) in simp_all)
  qed
qed

lemma strict_mono_rounding_ticks: "strict_mono rounding_ticks"
proof (rule strict_mono_Suc_iff [THEN iffD2], rule allI)
  fix n :: nat
  consider "n = 0" | "n = 1" | "n = 2" | "n = 3" | "n = 4" | "5 \<le> n"
    by linarith
  then show "rounding_ticks n < rounding_ticks (Suc n)"
    by cases (simp_all add: rounding_ticks_def)
qed

text \<open>
  C5, as amended. Times are doubles. For every run count from 1 to \<open>2147483647\<close>, the
  largest \<^verbatim>\<open>int\<close>, and a clock whose readings are finite and never decrease, the run
  of \<^verbatim>\<open>test_performance\<close> ends with the three report lines, and the best latency
  and the average printed are both non-negative (neither is NaN; either may be \<open>+\<infinity>\<close>).
  When the best latency printed is a number \<open>b\<close>, the average printed is at least
  \<open>b - b * (num_runs + 1) * 2 powi (- 53) - 2 powi (- 1074)\<close>: the best exceeds the
  average by no more than the rounding of the \<open>num_runs\<close> additions and the division.
  When the best latency printed is \<open>+\<infinity>\<close>, so is the average.
\<close>

theorem best_near_average:
  assumes "1 \<le> num_runs" and "num_runs \<le> 2147483647"
    and "current_time env = (\<lambda>k. Finite (t k))" and "mono t"
  shows "\<exists>events avg best.
     test_performance env blur num_runs =
       events @
       [Printf ''%d runs in total\<newline>'' [AInt num_runs],
        Printf ''Average: %1.4f milliseconds\<newline>'' [ADouble avg],
        Printf ''Best: %1.4f milliseconds\<newline>'' [ADouble best]] \<and>
     non_negative best \<and> non_negative avg \<and>
     (case best of
        Finite b \<Rightarrow>
          at_least avg
            (b - b * (real_of_int num_runs + 1) * double_roundoff - 2 * double_tiny)
      | _ \<Rightarrow> avg = PlusInfinity)"
proof -
  define s where
    "s = timing_loop env (realized blur) (get_output_buffer blur) num_runs 0
           \<lparr>total_time = Finite 0, best_time = Finite 0, clock_calls = 0,
            trace = [NewBuffer (get_output_buffer blur),
                     Realize (realized blur) (get_output_buffer blur)]\<rparr>"
  have "timing_inv num_runs s"
    unfolding s_def using assms by (intro timing_loop_inv) (simp_all add: timing_inv_def)
  from average_lower [OF assms(1,2) this]
  have "non_negative (best_time s) \<and> non_negative (average (total_time s) num_runs) \<and>
     (case best_time s of
        Finite b \<Rightarrow>
          at_least (average (total_time s) num_runs)
            (b - b * (real_of_int num_runs + 1) * double_roundoff - 2 * double_tiny)
      | _ \<Rightarrow> average (total_time s) num_runs = PlusInfinity)" .
  moreover have "test_performance env blur num_runs =
       trace s @
       [Printf ''%d runs in total\<newline>'' [AInt num_runs],
        Printf ''Average: %1.4f milliseconds\<newline>''
          [ADouble (average (total_time s) num_runs)],
        Printf ''Best: %1.4f milliseconds\<newline>'' [ADouble (best_time s)]]"
    by (simp add: test_performance_def Let_def s_def)
  ultimately show ?thesis
    by blast
qed

theorem best_near_average_witness:
  "1 \<le> (3::int) \<and> (3::int) \<le> 2147483647 \<and>
   current_time linux_cuda = (\<lambda>k. Finite (real k)) \<and> mono (real :: nat \<Rightarrow> real) \<and>
   (\<exists>events avg best.
      test_performance linux_cuda ramp_blur 3 =
        events @
        [Printf ''%d runs in total\<newline>'' [AInt 3],
         Printf ''Average: %1.4f milliseconds\<newline>'' [ADouble avg],
         Printf ''Best: %1.4f milliseconds\<newline>'' [ADouble best]] \<and>
      non_negative best \<and> non_negative avg \<and>
      (case best of
         Finite b \<Rightarrow>
           at_least avg (b - b * (real_of_int 3 + 1) * double_roundoff - 2 * double_tiny)
       | _ \<Rightarrow> avg = PlusInfinity))"
  using best_near_average [of 3 linux_cuda real ramp_blur]
  by (simp add: mono_def linux_cuda_def linux_no_gpu_def)

text \<open>
  Three runs on a clock that advances by one millisecond per reading: average and best
  are both 1.
\<close>

lemma three_runs:
  "test_performance linux_cuda ramp_blur 3 =
     [NewBuffer \<lparr>extent0 = 32, extent1 = 8, extent2 = 256, extent3 = 256\<rparr>,
      Realize ConsumerFunc \<lparr>extent0 = 32, extent1 = 8, extent2 = 256, extent3 = 256\<rparr>,
      Realize ConsumerFunc \<lparr>extent0 = 32, extent1 = 8, extent2 = 256, extent3 = 256\<rparr>, DeviceSync,
      Realize ConsumerFunc \<lparr>extent0 = 32, extent1 = 8, extent2 = 256, extent3 = 256\<rparr>, DeviceSync,
      Realize ConsumerFunc \<lparr>extent0 = 32, extent1 = 8, extent2 = 256, extent3 = 256\<rparr>, DeviceSync,
      Printf ''%d runs in total\<newline>'' [AInt 3],
      Printf ''Average: %1.4f milliseconds\<newline>'' [ADouble (Finite 1)],
      Printf ''Best: %1.4f milliseconds\<newline>'' [ADouble (Finite 1)]]"
  by (simp add: test_performance_def timing_loop.simps timing_body_def Let_def average_def
      realized_def get_output_buffer_def ramp_blur_def linux_cuda_def linux_no_gpu_def
      round_double_numerals)

text \<open>
  The specification asks that the best be at most the average and both be non-negative
  for every run, with no condition on the clock and no allowance for rounding. One run
  on a clock that is set back between the two readings reports a negative best and a
  negative average. Three runs on the strictly increasing clock \<open>rounding_ticks\<close> last
  \<open>2 - 34 * 2 powi (- 52)\<close> milliseconds each, exactly; the third addition rounds the
  total down, the division rounds again, and the average printed,
  \<open>2 - 35 * 2 powi (- 52)\<close>, is below the best.
\<close>

theorem best_above_average_counterexample:
  "test_performance clock_set_back ramp_blur 1 =
     [NewBuffer \<lparr>extent0 = 32, extent1 = 8, extent2 = 256, extent3 = 256\<rparr>,
      Realize ConsumerFunc \<lparr>extent0 = 32, extent1 = 8, extent2 = 256, extent3 = 256\<rparr>,
      Realize ConsumerFunc \<lparr>extent0 = 32, extent1 = 8, extent2 = 256, extent3 = 256\<rparr>, DeviceSync,
      Printf ''%d runs in total\<newline>'' [AInt 1],
      Printf ''Average: %1.4f milliseconds\<newline>'' [ADouble (Finite (- 2))],
      Printf ''Best: %1.4f milliseconds\<newline>'' [ADouble (Finite (- 2))]] \<and>
   strict_mono rounding_ticks \<and>
   test_performance clock_rounding ramp_blur 3 =
     [NewBuffer \<lparr>extent0 = 32, extent1 = 8, extent2 = 256, extent3 = 256\<rparr>,
      Realize ConsumerFunc \<lparr>extent0 = 32, extent1 = 8, extent2 = 256, extent3 = 256\<rparr>,
      Realize ConsumerFunc \<lparr>extent0 = 32, extent1 = 8, extent2 = 256, extent3 = 256\<rparr>, DeviceSync,
      Realize ConsumerFunc \<lparr>extent0 = 32, extent1 = 8, extent2 = 256, extent3 = 256\<rparr>, DeviceSync,
      Realize ConsumerFunc \<lparr>extent0 = 32, extent1 = 8, extent2 = 256, extent3 = 256\<rparr>, DeviceSync,
      Printf ''%d runs in total\<newline>'' [AInt 3],
      Printf ''Average: %1.4f milliseconds\<newline>''
        [ADouble (Finite (9007199254740957 / 4503599627370496))],
      Printf ''Best: %1.4f milliseconds\<newline>''
        [ADouble (Finite (4503599627370479 / 2251799813685248))]] \<and>
   ieee_less (Finite (9007199254740957 / 4503599627370496))
     (Finite (4503599627370479 / 2251799813685248))"
proof (intro conjI)
  show "test_performance clock_set_back ramp_blur 1 =
     [NewBuffer \<lparr>extent0 = 32, extent1 = 8, extent2 = 256, extent3 = 256\<rparr>,
      Realize ConsumerFunc \<lparr>extent0 = 32, extent1 = 8, extent2 = 256, extent3 = 256\<rparr>,
      Realize ConsumerFunc \<lparr>extent0 = 32, extent1 = 8, extent2 = 256, extent3 = 256\<rparr>, DeviceSync,
      Printf ''%d runs in total\<newline>'' [AInt 1],
      Printf ''Average: %1.4f milliseconds\<newline>'' [ADouble (Finite (- 2))],
      Printf ''Best: %1.4f milliseconds\<newline>'' [ADouble (Finite (- 2))]]"
    by (simp add: test_performance_def timing_loop.simps timing_body_def Let_def average_def
        realized_def get_output_buffer_def ramp_blur_def clock_set_back_def linux_cuda_def
        linux_no_gpu_def round_double_numerals)
  show "strict_mono rounding_ticks"
    by (rule strict_mono_rounding_ticks)
  show "test_performance clock_rounding ramp_blur 3 =
     [NewBuffer \<lparr>extent0 = 32, extent1 = 8, extent2 = 256, extent3 = 256\<rparr>,
      Realize ConsumerFunc \<lparr>extent0 = 32, extent1 = 8, extent2 = 256, extent3 = 256\<rparr>,
      Realize ConsumerFunc \<lparr>extent0 = 32, extent1 = 8, extent2 = 256, extent3 = 256\<rparr>, DeviceSync,
      Realize ConsumerFunc \<lparr>extent0 = 32, extent1 = 8, extent2 = 256, extent3 = 256\<rparr>, DeviceSync,
      Realize ConsumerFunc \<lparr>extent0 = 32, extent1 = 8, extent2 = 256, extent3 = 256\<rparr>, DeviceSync,
      Printf ''%d runs in total\<newline>'' [AInt 3],
      Printf ''Average: %1.4f milliseconds\<newline>''
        [ADouble (Finite (9007199254740957 / 4503599627370496))],
      Printf ''Best: %1.4f milliseconds\<newline>''
        [ADouble (Finite (4503599627370479 / 2251799813685248))]]"
    by (simp add: test_performance_def timing_loop.simps timing_body_def Let_def average_def
        realized_def get_output_buffer_def ramp_blur_def clock_rounding_def linux_cuda_def
        linux_no_gpu_def rounding_ticks_def round_double_numerals round_double_elapsed
        round_double_two_elapsed round_double_three_elapsed round_double_third)
  show "ieee_less (Finite (9007199254740957 / 4503599627370496))
     (Finite (4503599627370479 / 2251799813685248))"
    by simp
qed

section \<open>The plugin that is loaded\<close>

lemma main_plugin_loads:
  "length argv = 2 \<Longrightarrow>
     \<exists>rest. fst (main A env argv) =
        Printf ''Running performance test for Blur with autoscheduler: %s.\<newline>'' [AStr (argv ! 1)] #
        LoadPlugin ''autoschedule_li2018'' # rest \<and>
        filter is_plugin_load rest = []"
  "length argv = 1 \<Longrightarrow> filter is_plugin_load (fst (main A env argv)) = []"
  by (simp_all add: main_run announcement_def schedule_for_gpu_events test_performance_no_setup)

text \<open>
  C6, as amended. With exactly one argument, the run starts with the announcement and
  the load of the plugin \<^verbatim>\<open>autoschedule_li2018\<close>, whatever algorithm the argument
  names; everything else, scheduling and compilation included, comes after it, and no
  other plugin is loaded. With no argument, no plugin is loaded.
\<close>

theorem plugin_loaded_is_fixed:
  "(length argv = 2 \<longrightarrow>
      (\<exists>rest. fst (main A env argv) =
         Printf ''Running performance test for Blur with autoscheduler: %s.\<newline>'' [AStr (argv ! 1)] #
         LoadPlugin ''autoschedule_li2018'' # rest \<and>
         filter is_plugin_load rest = [])) \<and>
   (length argv = 1 \<longrightarrow> filter is_plugin_load (fst (main A env argv)) = [])"
  using main_plugin_loads [of argv A env] by blast

theorem plugin_loaded_is_fixed_witness:
  "length [''blur'', ''Li2018''] = 2 \<and> length [''blur''] = 1 \<and>
   filter is_plugin_load (fst (main exact linux_cuda [''blur'', ''Li2018''])) =
     [LoadPlugin ''autoschedule_li2018''] \<and>
   filter is_plugin_load (fst (main exact linux_cuda [''blur''])) = []"
  using plugin_loaded_is_fixed [of "[''blur'', ''Li2018'']" exact linux_cuda]
    plugin_loaded_is_fixed [of "[''blur'']" exact linux_cuda]
  by auto

text \<open>
  The specification has the plugin follow the name given. With the argument
  \<^verbatim>\<open>Adams2019\<close> the automatic scheduler is asked for \<^verbatim>\<open>Adams2019\<close>, and the one
  plugin loaded is still \<^verbatim>\<open>autoschedule_li2018\<close>.
\<close>

theorem plugin_name_counterexample:
  "filter is_plugin_load (fst (main exact linux_cuda [''blur'', ''Adams2019''])) =
     [LoadPlugin ''autoschedule_li2018''] \<and>
   filter is_scheduling (fst (main exact linux_cuda [''blur'', ''Adams2019''])) =
     [SetEstimates Consumer [(0, 32), (0, 8), (0, 258), (0, 258)],
      AutoSchedule ''Adams2019'' \<lparr>os = Linux, features = {CUDA, HostFeature 0}\<rparr>]"
proof -
  have sched: "fst (schedule_for_gpu linux_cuda (blur_layer exact linux_cuda [''blur'', ''Adams2019''])) =
     [SetEstimates Consumer [(0, 32), (0, 8), (0, 258), (0, 258)],
      AutoSchedule ''Adams2019'' \<lparr>os = Linux, features = {CUDA, HostFeature 0}\<rparr>,
      CompileJit AutoBlur \<lparr>os = Linux, features = {CUDA, HostFeature 0}\<rparr>]"
    by (simp add: schedule_for_gpu_def find_gpu_target_eq blur_layer_def random_input_def
        linux_cuda_def linux_no_gpu_def has_gpu_feature_def has_feature_def with_feature_def
        batch_size_def channels_in_def height_def width_def Let_def)
  show ?thesis
    by (simp add: main_run announcement_def sched test_performance_no_setup)
qed

end
